theory Spec2Isabelle
  imports Complex_Main "HOL-Library.Word" "HOL-Library.Sublist" "HOL-Library.Log_Nat"
    "HOL-Library.Code_Target_Numeral"
begin

section \<open>Values exchanged with the outside world\<close>

text \<open>
  \<^verbatim>\<open>fetchUSDFromPyth.js\<close> is sequential glue around three outside parties: the Pyth
  price service (SDK object \<^verbatim>\<open>priceService\<close> and the Hermes REST API reached with
  \<^verbatim>\<open>fetch\<close>), the chain (the \<^verbatim>\<open>ethers\<close> provider, wallet and contracts) and the process
  (environment variables, console, \<^verbatim>\<open>process.exit\<close>, timers). The script is modelled
  as functions from a record \<open>world\<close>, which holds what each outside call answers, to a
  result and the list of effects performed, in order. The deployment helper, a stub that
  only prints instructions, is left out.

  A JavaScript exception is a value \<open>Error message\<close>; a call that can throw or reject
  answers \<open>error + 'a\<close> with \<open>Inl\<close> the error.
\<close>

datatype error = Error (message: string)

text \<open>
  A \<^verbatim>\<open>Price\<close> as \<^verbatim>\<open>getPriceUnchecked()\<close> and the REST body give it. The field
  \<^verbatim>\<open>price\<close> is the decimal text of a signed integer; it is kept as that integer. The
  exponent and the publish time are whole numbers.
\<close>

record price_t =
  price :: int
  expo :: int
  publishTime :: int

text \<open>
  A price feed object of the SDK. \<^verbatim>\<open>serialize\<close> is \<open>None\<close> when the object has no such
  method (calling it is then a TypeError), and otherwise what the call answers.
\<close>

record price_feed =
  getPriceUnchecked :: price_t
  serialize :: "(error + string) option"

text \<open>
  What a synchronous, un-awaited call hands back: a plain value, or a promise together
  with the way it settles later.
\<close>

datatype 'a returned = Plain 'a | Promise "error + 'a"

type_synonym byte = "8 word"

text \<open>The \<^verbatim>\<open>Response\<close> of \<^verbatim>\<open>fetch\<close>: \<^verbatim>\<open>ok\<close>, \<^verbatim>\<open>status\<close> and what \<^verbatim>\<open>json()\<close> resolves to.\<close>

record 'a response =
  ok :: bool
  status :: nat
  json :: "error + 'a"

text \<open>The transaction receipt and the transaction response of \<^verbatim>\<open>ethers\<close>.\<close>

record receipt =
  blockNumber :: nat
  gasUsed :: nat

record tx =
  hash :: string
  wait :: "error + receipt"

section \<open>Numbers\<close>

text \<open>
  A JavaScript number is an IEEE double: a rational that has a 53-bit significand and an
  exponent in range, \<^verbatim>\<open>NaN\<close>, or one of the two infinities. The two zeros are not told
  apart: nothing the script prints or tests distinguishes them (\<^verbatim>\<open>toFixed\<close> writes
  both as \<^verbatim>\<open>0.00\<close>, both are falsy, and no division by a zero is reached).
\<close>

datatype number = Num rat | NaN | PosInfinity | NegInfinity

text \<open>
  The binary exponent of a positive rational \<open>a\<close>: the \<open>e\<close> with
  \<open>2\<^sup>e \<le> a < 2\<^sup>e\<^sup>+\<^sup>1\<close>, found from the bit lengths of numerator and denominator.
\<close>

definition exponent :: "rat \<Rightarrow> int" where
  "exponent a =
     (case quotient_of a of
        (p, q) \<Rightarrow>
          (let d = bitlen p - bitlen q in if 2 powi d \<le> a then d else d - 1))"

text \<open>The nearest integer, a tie going to the even one.\<close>

definition rne :: "rat \<Rightarrow> int" where
  "rne x =
     (let n = \<lfloor>x\<rfloor>; f = x - of_int n
      in if f < 1 / 2 then n else if 1 / 2 < f then n + 1 else if even n then n else n + 1)"

text \<open>
  The double nearest to a rational, as every arithmetic operation of JavaScript rounds
  its exact result: 53 significant bits, exponents from -1022 (below which the spacing
  stays \<open>2\<^sup>-\<^sup>1\<^sup>0\<^sup>7\<^sup>4\<close>, so that tiny values round to 0) to 1023 (from halfway
  between the largest double and \<open>2\<^sup>1\<^sup>0\<^sup>2\<^sup>4\<close> on, the result is an infinity).
\<close>

definition round_double :: "rat \<Rightarrow> number" where
  "round_double x =
     (if x = 0 then Num 0
      else if 2 ^ 1024 - 2 ^ 970 \<le> \<bar>x\<bar> then (if 0 < x then PosInfinity else NegInfinity)
      else
        (let ulp = 2 powi (max (exponent \<bar>x\<bar>) (- 1022) - 52)
         in Num (sgn x * of_int (rne (\<bar>x\<bar> / ulp)) * ulp)))"

text \<open>\<^verbatim>\<open>Number(s)\<close> for the decimal text \<open>s\<close> of an integer.\<close>

definition Number :: "int \<Rightarrow> number" where
  "Number n = round_double (of_int n)"

definition infinity :: "bool \<Rightarrow> number" where
  "infinity neg = (if neg then NegInfinity else PosInfinity)"

fun is_negative :: "number \<Rightarrow> bool" where
  "is_negative (Num a) = (a < 0)"
| "is_negative NegInfinity = True"
| "is_negative _ = False"

text \<open>The operators \<^verbatim>\<open>*\<close>, \<^verbatim>\<open>-\<close> and \<^verbatim>\<open>/\<close> on numbers.\<close>

fun js_times :: "number \<Rightarrow> number \<Rightarrow> number" where
  "js_times (Num a) (Num b) = round_double (a * b)"
| "js_times NaN y = NaN"
| "js_times x NaN = NaN"
| "js_times x y =
     (if x = Num 0 \<or> y = Num 0 then NaN else infinity (is_negative x \<noteq> is_negative y))"

fun js_minus :: "number \<Rightarrow> number \<Rightarrow> number" where
  "js_minus (Num a) (Num b) = round_double (a - b)"
| "js_minus NaN y = NaN"
| "js_minus x NaN = NaN"
| "js_minus (Num a) y = infinity (\<not> is_negative y)"
| "js_minus x (Num b) = x"
| "js_minus x y = (if x = y then NaN else x)"

fun js_div :: "number \<Rightarrow> number \<Rightarrow> number" where
  "js_div (Num a) (Num b) =
     (if b = 0 then (if a = 0 then NaN else infinity (a < 0)) else round_double (a / b))"
| "js_div NaN y = NaN"
| "js_div x NaN = NaN"
| "js_div (Num a) y = Num 0"
| "js_div x (Num b) = infinity (is_negative x \<noteq> (b < 0))"
| "js_div x y = NaN"

text \<open>A number is falsy when it is zero or \<^verbatim>\<open>NaN\<close>.\<close>

fun truthy :: "number \<Rightarrow> bool" where
  "truthy (Num a) = (a \<noteq> 0)"
| "truthy NaN = False"
| "truthy _ = True"

text \<open>The comparison \<^verbatim>\<open><\<close> of two numbers: false when either is \<^verbatim>\<open>NaN\<close>.\<close>

fun js_less :: "number \<Rightarrow> number \<Rightarrow> bool" where
  "js_less (Num a) (Num b) = (a < b)"
| "js_less NaN y = False"
| "js_less x NaN = False"
| "js_less x PosInfinity = (x \<noteq> PosInfinity)"
| "js_less NegInfinity y = (y \<noteq> NegInfinity)"
| "js_less x y = False"

text \<open>
  \<^verbatim>\<open>publishTime * 1000\<close>, the time that \<^verbatim>\<open>new Date\<close> is given, for a publish time that
  is a whole number of seconds.
\<close>

definition milliseconds :: "int \<Rightarrow> number" where
  "milliseconds seconds = js_times (Number seconds) (Number 1000)"

section \<open>The outside world\<close>

text \<open>
  The outside world. The body of \<^verbatim>\<open>latest_price_feeds\<close> is \<open>None\<close> when it is a falsy
  JSON value, and otherwise the list of its entries, each entry being its \<^verbatim>\<open>price\<close> object
  or \<open>None\<close> when the entry has none. The body of \<^verbatim>\<open>latest_vaas\<close> is \<open>None\<close> when it is
  not an array (it has no \<^verbatim>\<open>map\<close>), and otherwise its list of strings.
  \<open>Buffer_from_base64\<close> is Node's \<^verbatim>\<open>Buffer.from(s, "base64")\<close>, and \<open>Math_pow_10 e\<close> is
  what the engine's \<^verbatim>\<open>Math.pow(10, e)\<close> answers.
\<close>

record world =
  env_SEPOLIA_RPC_URL :: "string option"
  env_PRIVATE_KEY :: "string option"
  env_CONTRACT_ADDRESS :: "string option"
  getLatestPriceFeeds :: "error + price_feed list option"
  getPriceUpdatesData :: "(price_feed list \<Rightarrow> error + string list returned) option"
  getPriceFeedsUpdateData :: "(price_feed list \<Rightarrow> error + string list returned) option"
  subscribePriceFeedUpdates :: "(error + unit) option"
  fetch_latest_price_feeds :: "string \<Rightarrow> error + price_t option list option response"
  fetch_latest_vaas :: "string \<Rightarrow> error + string list option response"
  Buffer_from_base64 :: "string \<Rightarrow> byte list"
  Math_pow_10 :: "int \<Rightarrow> number"
  new_Wallet :: "string option \<Rightarrow> error + string"
  getBalance :: "string \<Rightarrow> string \<Rightarrow> error + nat"
  getUpdateFee :: "string list \<Rightarrow> error + nat"
  fetchUSDPrice :: "string list \<Rightarrow> nat \<Rightarrow> nat \<Rightarrow> error + tx"

section \<open>The decoded price and its text\<close>

text \<open>
  \<^verbatim>\<open>Math.pow(10, e)\<close> for an integer \<open>e\<close>. The language fixes the result 1 for the
  exponent 0 and leaves the accuracy of the others to the engine, so these are asked of
  the world.
\<close>

definition Math_pow10 :: "world \<Rightarrow> int \<Rightarrow> number" where
  "Math_pow10 w e = (if e = 0 then Num 1 else Math_pow_10 w e)"

text \<open>\<^verbatim>\<open>Number(price.price) * Math.pow(10, price.expo)\<close>.\<close>

definition readablePrice :: "world \<Rightarrow> price_t \<Rightarrow> number" where
  "readablePrice w p = js_times (Number (price p)) (Math_pow10 w (expo p))"

text \<open>
  The text \<^verbatim>\<open>x.toFixed(2)\<close> produces. Below \<open>10\<^sup>2\<^sup>1\<close> in magnitude it is a sign and a
  number of hundredths, the one nearest to the exact value of the double, a tie going
  to the larger magnitude. From \<open>10\<^sup>2\<^sup>1\<close> on it is the text of the number itself, which
  reads back as that number. Otherwise it is one of the three words.
\<close>

datatype fixed =
  Fixed bool nat | Number_text rat | TextNaN | TextInfinity | TextNegInfinity

fun toFixed2 :: "number \<Rightarrow> fixed" where
  "toFixed2 (Num x) =
     (if 10 ^ 21 \<le> \<bar>x\<bar> then Number_text x
      else Fixed (x < 0) (nat \<lfloor>\<bar>x\<bar> * 100 + 1 / 2\<rfloor>))"
| "toFixed2 NaN = TextNaN"
| "toFixed2 PosInfinity = TextInfinity"
| "toFixed2 NegInfinity = TextNegInfinity"

section \<open>Effects\<close>

text \<open>
  In \<^verbatim>\<open>monitorPrices\<close> the variable \<^verbatim>\<open>change\<close> holds either the number literal \<^verbatim>\<open>0\<close> or the
  text that \<^verbatim>\<open>toFixed(2)\<close> made; the arrow is one of three.
\<close>

datatype change = Literal_zero | Text fixed

datatype arrow = Up | Down | Flat

text \<open>
  Every line the script prints, by the place that prints it. \<open>Price_line\<close> carries the
  arrow, the price text, whether a \<^verbatim>\<open>+\<close> is printed, and the change.
\<close>

datatype line =
    Script_initialized
  | Wallet_address string
  | Contract_address string
  | Fetching_latest_price_data
  | Current_price fixed
  | Last_updated number
  | Price_update_data_ready
  | Error_fetching_price_data string
  | Trying_alternative_method
  | Price_update_data_ready_via_REST
  | REST_fallback_failed string
  | Checking_wallet_balance
  | Wallet_balance nat
  | Warning_low_balance
  | Calling_fetchUSDPrice
  | Update_fee_required nat
  | Sending_transaction
  | Transaction_hash string
  | Waiting_for_confirmation
  | Transaction_confirmed nat
  | Gas_used nat
  | Error_calling_contract_method string
  | Tip_more_ETH
  | Tip_call_failed
  | Banner_title
  | Banner_rule
  | Error_set_PRIVATE_KEY
  | Error_set_CONTRACT_ADDRESS
  | Would_you_like_to_monitor
  | Script_completed
  | Script_failed string
  | Starting_price_monitoring
  | Will_monitor_for nat
  | Using_manual_price_polling
  | Price_line arrow fixed bool change
  | Error_fetching_price string
  | Monitoring_stopped nat

text \<open>An effect is a printed line or a call to an outside party, with its arguments.\<close>

datatype event =
    Console line
  | Call_getLatestPriceFeeds "string list"
  | Call_getPriceUpdatesData
  | Call_getPriceFeedsUpdateData
  | Call_fetch string
  | Call_json
  | Call_new_Wallet
  | Call_getBalance string string
  | Call_getUpdateFee "string list"
  | Call_fetchUSDPrice "string list" nat nat
  | Call_wait string
  | Call_subscribePriceFeedUpdates "string list"
  | Call_setInterval nat
  | Call_setTimeout nat
  | Call_clearInterval nat

type_synonym 'a io = "(error + 'a) \<times> event list"

definition io_return :: "'a \<Rightarrow> 'a io" where
  "io_return x = (Inr x, [])"

definition io_throw :: "error \<Rightarrow> 'a io" where
  "io_throw e = (Inl e, [])"

definition io_log :: "line \<Rightarrow> unit io" where
  "io_log l = (Inr (), [Console l])"

text \<open>An outside call: the effect happens, then the answer is a value or an exception.\<close>

definition io_call :: "event \<Rightarrow> error + 'a \<Rightarrow> 'a io" where
  "io_call ev answer = (answer, [ev])"

definition io_emit :: "event \<Rightarrow> unit io" where
  "io_emit ev = (Inr (), [ev])"

definition io_bind :: "'a io \<Rightarrow> ('a \<Rightarrow> 'b io) \<Rightarrow> 'b io" where
  "io_bind m f =
     (case m of
        (Inl e, t) \<Rightarrow> (Inl e, t)
      | (Inr x, t) \<Rightarrow> (case f x of (r, t') \<Rightarrow> (r, t @ t')))"

definition io_then :: "unit io \<Rightarrow> 'b io \<Rightarrow> 'b io" where
  "io_then m k = io_bind m (\<lambda>_. k)"

text \<open>\<^verbatim>\<open>try { m } catch (error) { h error }\<close>.\<close>

definition io_catch :: "'a io \<Rightarrow> (error \<Rightarrow> 'a io) \<Rightarrow> 'a io" where
  "io_catch m h =
     (case m of
        (Inl e, t) \<Rightarrow> (case h e of (r, t') \<Rightarrow> (r, t @ t'))
      | (Inr x, t) \<Rightarrow> (Inr x, t))"

section \<open>Configuration\<close>

definition PLACEHOLDER_RPC_URL :: string where
  "PLACEHOLDER_RPC_URL = ''https://sepolia.infura.io/v3/YOUR_INFURA_KEY''"

definition PYTH_CONTRACT_ADDRESS :: string where
  "PYTH_CONTRACT_ADDRESS = ''0xDd24F84d36BF92C65F92307595335bdFab5Bbd21''"

definition ETH_USD_PRICE_ID :: string where
  "ETH_USD_PRICE_ID = ''0xff61491a931112ddf1bd8147cd1b641375f79f5825126d665480874634fd0ace''"

text \<open>\<^verbatim>\<open>process.env.X || d\<close>: an unset or empty variable gives the default.\<close>

definition or_default :: "string option \<Rightarrow> string \<Rightarrow> string" where
  "or_default v d = (case v of None \<Rightarrow> d | Some s \<Rightarrow> if s = [] then d else s)"

definition SEPOLIA_RPC_URL :: "world \<Rightarrow> string" where
  "SEPOLIA_RPC_URL w = or_default (env_SEPOLIA_RPC_URL w) PLACEHOLDER_RPC_URL"

definition PRIVATE_KEY :: "world \<Rightarrow> string option" where
  "PRIVATE_KEY w = env_PRIVATE_KEY w"

definition YOUR_CONTRACT_ADDRESS :: "world \<Rightarrow> string" where
  "YOUR_CONTRACT_ADDRESS w = or_default (env_CONTRACT_ADDRESS w) ''0x...''"

section \<open>Step 1: the price update data\<close>

text \<open>\<^verbatim>\<open>buf.toString("hex")\<close>: two lower-case digits for each byte.\<close>

definition hex_digit :: "nat \<Rightarrow> char" where
  "hex_digit n = ''0123456789abcdef'' ! n"

definition hex_of_byte :: "byte \<Rightarrow> string" where
  "hex_of_byte b = [hex_digit (unat b div 16), hex_digit (unat b mod 16)]"

definition toString_hex :: "byte list \<Rightarrow> string" where
  "toString_hex bs = concat (map hex_of_byte bs)"

text \<open>The decimal text of a natural number, as a template literal prints it.\<close>

fun decimal :: "nat \<Rightarrow> string" where
  "decimal n =
     (if n < 10 then [''0123456789'' ! n]
      else decimal (n div 10) @ [''0123456789'' ! (n mod 10)])"

definition LATEST_PRICE_FEEDS_URL :: string where
  "LATEST_PRICE_FEEDS_URL =
     ''https://hermes.pyth.network/api/latest_price_feeds?ids[]='' @ ETH_USD_PRICE_ID"

definition LATEST_VAAS_URL :: string where
  "LATEST_VAAS_URL = ''https://hermes.pyth.network/api/latest_vaas?ids[]='' @ ETH_USD_PRICE_ID"

text \<open>The body of the \<^verbatim>\<open>try\<close> block of \<^verbatim>\<open>getPriceUpdateDataViaRest\<close>.\<close>

definition rest_body :: "world \<Rightarrow> string list io" where
  "rest_body w =
     io_bind (io_call (Call_fetch LATEST_PRICE_FEEDS_URL)
                (fetch_latest_price_feeds w LATEST_PRICE_FEEDS_URL)) (\<lambda>response.
     if \<not> ok response
     then io_throw (Error (''HTTP error! status: '' @ decimal (status response)))
     else
       io_bind (io_call Call_json (json response)) (\<lambda>data.
       case data of
         Some (entry # rest) \<Rightarrow>
           (case entry of
              None \<Rightarrow> io_throw (Error ''Cannot read properties of undefined'')
            | Some priceData \<Rightarrow>
                io_then (io_log (Current_price (toFixed2 (readablePrice w priceData))))
               (io_then (io_log (Last_updated (milliseconds (publishTime priceData))))
               (io_bind (io_call (Call_fetch LATEST_VAAS_URL)
                          (fetch_latest_vaas w LATEST_VAAS_URL)) (\<lambda>vaaResponse.
                if \<not> ok vaaResponse
                then io_throw (Error (''VAA fetch error! status: '' @ decimal (status vaaResponse)))
                else
                  io_bind (io_call Call_json (json vaaResponse)) (\<lambda>vaaData.
                  io_then (io_log Price_update_data_ready_via_REST)
                    (case vaaData of
                       None \<Rightarrow> io_throw (Error ''vaaData.map is not a function'')
                     | Some vaas \<Rightarrow>
                         io_return
                           (map (\<lambda>vaa. ''0x'' @ toString_hex (Buffer_from_base64 w vaa))
                              vaas)))))))
       | _ \<Rightarrow> io_throw (Error ''No price data available from REST API'')))"

definition getPriceUpdateDataViaRest :: "world \<Rightarrow> string list io" where
  "getPriceUpdateDataViaRest w =
     io_catch (rest_body w)
       (\<lambda>error. io_then (io_log (REST_fallback_failed (message error))) (io_throw error))"

text \<open>\<^verbatim>\<open>priceFeeds.map((priceFeed) => priceFeed.serialize())\<close>, which stops at the first throw.\<close>

fun map_serialize :: "price_feed list \<Rightarrow> error + string list" where
  "map_serialize [] = Inr []"
| "map_serialize (f # fs) =
     (case serialize f of
        None \<Rightarrow> Inl (Error ''priceFeed.serialize is not a function'')
      | Some (Inl e) \<Rightarrow> Inl e
      | Some (Inr s) \<Rightarrow>
          (case map_serialize fs of Inl e \<Rightarrow> Inl e | Inr ss \<Rightarrow> Inr (s # ss)))"

text \<open>
  The choice of the serialising method, by which of them the SDK object has. Neither
  call is awaited.
\<close>

definition make_updateData :: "world \<Rightarrow> price_feed list \<Rightarrow> string list returned io" where
  "make_updateData w priceFeeds =
     (case getPriceUpdatesData w of
        Some f \<Rightarrow> io_call Call_getPriceUpdatesData (f priceFeeds)
      | None \<Rightarrow>
          (case getPriceFeedsUpdateData w of
             Some g \<Rightarrow> io_call Call_getPriceFeedsUpdateData (g priceFeeds)
           | None \<Rightarrow>
               (case map_serialize priceFeeds of
                  Inl e \<Rightarrow> io_throw e
                | Inr ss \<Rightarrow> io_return (Plain ss))))"

text \<open>The body of the \<^verbatim>\<open>try\<close> block of \<^verbatim>\<open>getPriceUpdateData\<close>: the primary path.\<close>

definition primary_body :: "world \<Rightarrow> string list returned io" where
  "primary_body w =
     io_bind (io_call (Call_getLatestPriceFeeds [ETH_USD_PRICE_ID]) (getLatestPriceFeeds w))
       (\<lambda>priceFeeds.
     case priceFeeds of
       Some (feed # rest) \<Rightarrow>
         io_then (io_log (Current_price
                    (toFixed2 (readablePrice w (getPriceUnchecked feed)))))
        (io_then (io_log (Last_updated (milliseconds (publishTime (getPriceUnchecked feed)))))
        (io_bind (make_updateData w (feed # rest)) (\<lambda>updateData.
         io_then (io_log Price_update_data_ready)
           (io_return updateData))))
     | _ \<Rightarrow> io_throw (Error ''No price feeds available''))"

text \<open>
  An \<^verbatim>\<open>async\<close> function that returns a promise settles as that promise does, after
  the function body, and so after its \<^verbatim>\<open>try\<close> block, has been left.
\<close>

definition settle :: "'a returned io \<Rightarrow> 'a io" where
  "settle m =
     (case m of
        (Inl e, t) \<Rightarrow> (Inl e, t)
      | (Inr (Plain v), t) \<Rightarrow> (Inr v, t)
      | (Inr (Promise r), t) \<Rightarrow> (r, t))"

definition lift_plain :: "'a io \<Rightarrow> 'a returned io" where
  "lift_plain m = (case m of (Inl e, t) \<Rightarrow> (Inl e, t) | (Inr v, t) \<Rightarrow> (Inr (Plain v), t))"

definition getPriceUpdateData :: "world \<Rightarrow> string list io" where
  "getPriceUpdateData w =
     io_then (io_log Fetching_latest_price_data)
       (settle
          (io_catch (primary_body w)
             (\<lambda>error.
                io_then (io_log (Error_fetching_price_data (message error)))
               (io_then (io_log Trying_alternative_method)
                 (lift_plain (getPriceUpdateDataViaRest w))))))"

section \<open>The script object\<close>

text \<open>
  The constructor builds the provider, the wallet and the contract. Of these only
  \<^verbatim>\<open>new ethers.Wallet\<close> looks at its argument when called; it answers the wallet's address.
\<close>

record script =
  wallet_address :: string

definition constructor :: "world \<Rightarrow> script io" where
  "constructor w =
     io_bind (io_call Call_new_Wallet (new_Wallet w (PRIVATE_KEY w))) (\<lambda>address.
     io_then (io_log Script_initialized)
    (io_then (io_log (Wallet_address address))
    (io_then (io_log (Contract_address (YOUR_CONTRACT_ADDRESS w)))
      (io_return \<lparr>wallet_address = address\<rparr>))))"

section \<open>Step 2: the wallet balance\<close>

text \<open>
  \<^verbatim>\<open>ethers.formatEther(balance)\<close>: the balance is a whole number of wei, and the text
  is its exact decimal value in ether. \<^verbatim>\<open>parseFloat\<close> reads such a text as the nearest
  double.
\<close>

definition formatEther :: "nat \<Rightarrow> rat" where
  "formatEther wei = of_nat wei / 10 ^ 18"

definition parseFloat :: "rat \<Rightarrow> number" where
  "parseFloat x = round_double x"

text \<open>
  \<^verbatim>\<open>checkBalance\<close>. The test is \<^verbatim>\<open>parseFloat(balanceInETH) < 0.01\<close>, a comparison of two
  doubles, the literal \<^verbatim>\<open>0.01\<close> being the double nearest to one hundredth.
\<close>

definition checkBalance :: "script \<Rightarrow> world \<Rightarrow> nat io" where
  "checkBalance this w =
     io_then (io_log Checking_wallet_balance)
    (io_bind (io_call (Call_getBalance (SEPOLIA_RPC_URL w) (wallet_address this))
                (getBalance w (SEPOLIA_RPC_URL w) (wallet_address this))) (\<lambda>balance.
     io_then (io_log (Wallet_balance balance))
    (io_then (if js_less (parseFloat (formatEther balance)) (round_double (1 / 100))
              then io_log Warning_low_balance
              else io_return ())
      (io_return balance))))"

section \<open>Step 3: the contract call\<close>

text \<open>\<^verbatim>\<open>s.includes(sub)\<close>: \<open>sub\<close> occurs in \<open>s\<close> as a run of consecutive characters.\<close>

fun str_includes :: "string \<Rightarrow> string \<Rightarrow> bool" where
  "str_includes [] sub = (sub = [])"
| "str_includes (c # cs) sub = (prefix sub (c # cs) \<or> str_includes cs sub)"

text \<open>The body of the \<^verbatim>\<open>try\<close> block of \<^verbatim>\<open>callFetchUSDPrice\<close>.\<close>

definition call_body :: "world \<Rightarrow> receipt io" where
  "call_body w =
     io_bind (getPriceUpdateData w) (\<lambda>priceUpdateData.
     io_bind (io_call (Call_getUpdateFee priceUpdateData)
                (getUpdateFee w priceUpdateData)) (\<lambda>updateFee.
     io_then (io_log (Update_fee_required updateFee))
    (io_then (io_log Sending_transaction)
    (io_bind (io_call (Call_fetchUSDPrice priceUpdateData updateFee 500000)
                (fetchUSDPrice w priceUpdateData updateFee 500000)) (\<lambda>tx.
     io_then (io_log (Transaction_hash (hash tx)))
    (io_then (io_log Waiting_for_confirmation)
    (io_bind (io_call (Call_wait (hash tx)) (wait tx)) (\<lambda>receipt.
     io_then (io_log (Transaction_confirmed (blockNumber receipt)))
    (io_then (io_log (Gas_used (gasUsed receipt)))
      (io_return receipt))))))))))"

definition callFetchUSDPrice :: "world \<Rightarrow> receipt io" where
  "callFetchUSDPrice w =
     io_then (io_log Calling_fetchUSDPrice)
       (io_catch (call_body w)
          (\<lambda>error.
             io_then (io_log (Error_calling_contract_method (message error)))
            (io_then
               (if str_includes (message error) ''insufficient funds'' then io_log Tip_more_ETH
                else if str_includes (message error) ''execution reverted''
                  then io_log Tip_call_failed
                else io_return ())
               (io_throw error))))"

section \<open>Step 4: the price monitor\<close>

text \<open>
  \<^verbatim>\<open>monitorPrices\<close> only registers callbacks and returns. What it leaves behind is a
  \<open>monitor\<close>: the two variables the callbacks share, the registrations (the
  subscription, the running intervals, the pending timeouts with what each will do),
  the number of polls whose answer is awaited, and the effects performed since.
\<close>

datatype callback = Clear_interval nat | Report_stopped

record monitor =
  priceCount :: nat
  lastPrice :: number
  subscribed :: bool
  intervals :: "nat list"
  timeouts :: "(nat \<times> callback) list"
  next_timer :: nat
  pending :: nat
  effects :: "event list"

definition print :: "line \<Rightarrow> monitor \<Rightarrow> monitor" where
  "print l m = m\<lparr>effects := effects m @ [Console l]\<rparr>"

text \<open>\<^verbatim>\<open>change > 0\<close> and \<^verbatim>\<open>change < 0\<close>, where a text is first read back as a number.\<close>

fun positive :: "change \<Rightarrow> bool" where
  "positive Literal_zero = False"
| "positive (Text (Fixed neg n)) = (\<not> neg \<and> 0 < n)"
| "positive (Text (Number_text x)) = (0 < x)"
| "positive (Text TextInfinity) = True"
| "positive (Text _) = False"

fun negative :: "change \<Rightarrow> bool" where
  "negative Literal_zero = False"
| "negative (Text (Fixed neg n)) = (neg \<and> 0 < n)"
| "negative (Text (Number_text x)) = (x < 0)"
| "negative (Text TextNegInfinity) = True"
| "negative (Text _) = False"

text \<open>
  \<^verbatim>\<open>lastPrice ? (((readablePrice - lastPrice) / lastPrice) * 100).toFixed(2) : 0\<close>:
  the guard is the truthiness of \<^verbatim>\<open>lastPrice\<close>.
\<close>

definition change_since :: "number \<Rightarrow> number \<Rightarrow> change" where
  "change_since previous readable =
     (if truthy previous
      then Text (toFixed2
        (js_times (js_div (js_minus readable previous) previous) (Number 100)))
      else Literal_zero)"

definition arrow_of :: "change \<Rightarrow> arrow" where
  "arrow_of c = (if positive c then Up else if negative c then Down else Flat)"

text \<open>
  What both the subscription callback and the polling callback do with a price feed.
\<close>

definition show_price :: "world \<Rightarrow> price_feed \<Rightarrow> monitor \<Rightarrow> monitor" where
  "show_price w priceFeed m =
     (let readable = readablePrice w (getPriceUnchecked priceFeed);
          m1 = m\<lparr>priceCount := priceCount m + 1\<rparr>;
          c = change_since (lastPrice m1) readable;
          m2 = print (Price_line (arrow_of c) (toFixed2 readable) (positive c) c) m1
      in m2\<lparr>lastPrice := readable\<rparr>)"

text \<open>The polling callback from its \<^verbatim>\<open>await\<close> on, given how the request settled.\<close>

definition poll_settled ::
  "world \<Rightarrow> error + price_feed list option \<Rightarrow> monitor \<Rightarrow> monitor" where
  "poll_settled w answer m =
     (case answer of
        Inl error \<Rightarrow> print (Error_fetching_price (message error)) m
      | Inr (Some (feed # rest)) \<Rightarrow> show_price w feed m
      | Inr _ \<Rightarrow> m)"

definition setInterval :: "monitor \<Rightarrow> nat \<times> monitor" where
  "setInterval m =
     (next_timer m, m\<lparr>intervals := intervals m @ [next_timer m], next_timer := next_timer m + 1\<rparr>)"

definition setTimeout :: "callback \<Rightarrow> monitor \<Rightarrow> monitor" where
  "setTimeout cb m =
     m\<lparr>timeouts := timeouts m @ [(next_timer m, cb)], next_timer := next_timer m + 1\<rparr>"

definition clearInterval :: "nat \<Rightarrow> monitor \<Rightarrow> monitor" where
  "clearInterval i m = m\<lparr>intervals := removeAll i (intervals m)\<rparr>"

definition new_monitor :: monitor where
  "new_monitor =
     \<lparr>priceCount = 0, lastPrice = Num 0, subscribed = False, intervals = [], timeouts = [],
      next_timer = 1, pending = 0, effects = []\<rparr>"

definition monitorPrices :: "nat \<Rightarrow> world \<Rightarrow> monitor io" where
  "monitorPrices duration w =
     io_then (io_log Starting_price_monitoring)
    (io_then (io_log (Will_monitor_for duration))
    (io_bind
       (case subscribePriceFeedUpdates w of
          Some answer \<Rightarrow>
            io_bind (io_call (Call_subscribePriceFeedUpdates [ETH_USD_PRICE_ID]) answer)
              (\<lambda>_. io_return (new_monitor\<lparr>subscribed := True\<rparr>))
        | None \<Rightarrow>
            io_then (io_log Using_manual_price_polling)
           (io_then (io_emit (Call_setInterval 5000))
           (io_then (io_emit (Call_setTimeout duration))
             (case setInterval new_monitor of
                (interval, m) \<Rightarrow> io_return (setTimeout (Clear_interval interval) m)))))
       (\<lambda>m.
          io_then (io_emit (Call_setTimeout duration))
            (io_return (setTimeout Report_stopped m)))))"

text \<open>
  What happens after \<^verbatim>\<open>monitorPrices\<close> has returned, one occurrence at a time: the
  price service pushes an update to its subscribers, the runtime finds an interval or a
  timeout due, or a poll's request settles. A callback runs only while it is registered.
\<close>

datatype occurrence =
    Update_pushed price_feed
  | Interval_due nat
  | Poll_settles "error + price_feed list option"
  | Timeout_due nat

fun run_callback :: "callback \<Rightarrow> monitor \<Rightarrow> monitor" where
  "run_callback (Clear_interval i) m =
     clearInterval i (m\<lparr>effects := effects m @ [Call_clearInterval i]\<rparr>)"
| "run_callback Report_stopped m = print (Monitoring_stopped (priceCount m)) m"

fun occur :: "world \<Rightarrow> occurrence \<Rightarrow> monitor \<Rightarrow> monitor" where
  "occur w (Update_pushed priceFeed) m =
     (if subscribed m then show_price w priceFeed m else m)"
| "occur w (Interval_due i) m =
     (if i \<in> set (intervals m)
      then m\<lparr>pending := pending m + 1,
             effects := effects m @ [Call_getLatestPriceFeeds [ETH_USD_PRICE_ID]]\<rparr>
      else m)"
| "occur w (Poll_settles answer) m =
     (if 0 < pending m then poll_settled w answer (m\<lparr>pending := pending m - 1\<rparr>) else m)"
| "occur w (Timeout_due i) m =
     (case map_of (timeouts m) i of
        None \<Rightarrow> m
      | Some cb \<Rightarrow> run_callback cb (m\<lparr>timeouts := filter (\<lambda>t. fst t \<noteq> i) (timeouts m)\<rparr>))"

fun event_loop :: "world \<Rightarrow> occurrence list \<Rightarrow> monitor \<Rightarrow> monitor" where
  "event_loop w [] m = m"
| "event_loop w (x # xs) m = event_loop w xs (occur w x m)"

section \<open>Main\<close>

text \<open>
  \<^verbatim>\<open>process.exit(1)\<close> ends the process at once: \<open>Exit 1\<close>. Otherwise \<^verbatim>\<open>main\<close> returns,
  and the process lives on for as long as the monitor has something registered.
\<close>

datatype outcome = Exit nat | Returned monitor

definition main_body :: "world \<Rightarrow> monitor io" where
  "main_body w =
     io_bind (constructor w) (\<lambda>script.
     io_bind (checkBalance script w) (\<lambda>_.
     io_bind (callFetchUSDPrice w) (\<lambda>_.
     io_then (io_log Would_you_like_to_monitor)
    (io_bind (monitorPrices 30000 w) (\<lambda>m.
     io_then (io_log Script_completed)
       (io_return m))))))"

text \<open>The two lines printed first.\<close>

definition banner :: "event list" where
  "banner = [Console Banner_title, Console Banner_rule]"

definition main :: "world \<Rightarrow> outcome \<times> event list" where
  "main w =
     (if PRIVATE_KEY w = None \<or> PRIVATE_KEY w = Some []
      then (Exit 1, banner @ [Console Error_set_PRIVATE_KEY])
      else if YOUR_CONTRACT_ADDRESS w = ''0x...''
      then (Exit 1, banner @ [Console Error_set_CONTRACT_ADDRESS])
      else
        (case main_body w of
           (Inl error, t) \<Rightarrow>
             (Exit 1, banner @ t @ [Console (Script_failed (message error))])
         | (Inr m, t) \<Rightarrow> (Returned m, banner @ t)))"

section \<open>Sample worlds\<close>

text \<open>
  A world in which everything answers: the SDK object has neither serialising method, so
  the feeds are serialised one by one; it can push updates to subscribers; its
  \<^verbatim>\<open>Math.pow\<close> answers the double nearest to the power.
\<close>

definition sample_price :: price_t where
  "sample_price = \<lparr>price = 300012345678, expo = - 8, publishTime = 1700000000\<rparr>"

definition sample_feed :: price_feed where
  "sample_feed = \<lparr>getPriceUnchecked = sample_price, serialize = Some (Inr ''0x504e4155'')\<rparr>"

text \<open>The same feed five seconds later, about one percent higher.\<close>

definition rising_feed :: price_feed where
  "rising_feed =
     \<lparr>getPriceUnchecked = \<lparr>price = 303012469135, expo = - 8, publishTime = 1700000005\<rparr>,
      serialize = Some (Inr ''0x504e4155'')\<rparr>"

text \<open>A feed whose exponent makes \<^verbatim>\<open>Math.pow\<close> overflow.\<close>

definition huge_feed :: price_feed where
  "huge_feed =
     \<lparr>getPriceUnchecked = \<lparr>price = 1, expo = 400, publishTime = 1700000000\<rparr>,
      serialize = Some (Inr ''0x504e4155'')\<rparr>"

text \<open>A price one above \<open>2\<^sup>5\<^sup>3\<close>, with exponent 0.\<close>

definition odd_price :: price_t where
  "odd_price = \<lparr>price = 9007199254740993, expo = 0, publishTime = 1700000000\<rparr>"

definition sample_receipt :: receipt where
  "sample_receipt = \<lparr>blockNumber = 7, gasUsed = 21000\<rparr>"

definition fair_world :: world where
  "fair_world =
     \<lparr>env_SEPOLIA_RPC_URL = Some ''https://rpc.example'',
      env_PRIVATE_KEY = Some ''0x01'',
      env_CONTRACT_ADDRESS = Some ''0xC0ffee'',
      getLatestPriceFeeds = Inr (Some [sample_feed]),
      getPriceUpdatesData = None,
      getPriceFeedsUpdateData = None,
      subscribePriceFeedUpdates = Some (Inr ()),
      fetch_latest_price_feeds =
        (\<lambda>url. Inr \<lparr>ok = True, status = 200, json = Inr (Some [Some sample_price])\<rparr>),
      fetch_latest_vaas =
        (\<lambda>url. Inr \<lparr>ok = True, status = 200, json = Inr (Some [''AQID''])\<rparr>),
      Buffer_from_base64 = (\<lambda>s. if s = ''AQID'' then [1, 2, 3] else []),
      Math_pow_10 = (\<lambda>e. round_double (10 powi e)),
      new_Wallet = (\<lambda>key. Inr ''0xWallet''),
      getBalance = (\<lambda>url address. Inr (5 * 10 ^ 15)),
      getUpdateFee = (\<lambda>updateData. Inr 1),
      fetchUSDPrice =
        (\<lambda>updateData val gasLimit. Inr \<lparr>hash = ''0xabc'', wait = Inr sample_receipt\<rparr>)\<rparr>"

text \<open>The SDK request fails; the REST API answers.\<close>

definition sdk_down_world :: world where
  "sdk_down_world = fair_world\<lparr>getLatestPriceFeeds := Inl (Error ''network down'')\<rparr>"

text \<open>The SDK request fails and so does the first REST request.\<close>

definition all_down_world :: world where
  "all_down_world =
     sdk_down_world\<lparr>fetch_latest_price_feeds := (\<lambda>url. Inl (Error ''fetch failed''))\<rparr>"

text \<open>The SDK request fails; the REST API answers one VAA, the empty string.\<close>

definition bare_vaa_world :: world where
  "bare_vaa_world =
     sdk_down_world\<lparr>fetch_latest_vaas :=
       (\<lambda>url. Inr \<lparr>ok = True, status = 200, json = Inr (Some [[]])\<rparr>)\<rparr>"

text \<open>
  The SDK object has \<^verbatim>\<open>getPriceFeedsUpdateData\<close>; it returns a promise, which is rejected.
\<close>

definition promise_world :: world where
  "promise_world =
     fair_world\<lparr>getPriceFeedsUpdateData :=
       Some (\<lambda>priceFeeds. Inr (Promise (Inl (Error ''Request failed with status code 400''))))\<rparr>"

text \<open>The contract call is refused, with a message that names both known patterns.\<close>

definition refusing_world :: world where
  "refusing_world =
     fair_world\<lparr>fetchUSDPrice :=
       (\<lambda>updateData val gasLimit. Inl (Error ''execution reverted: insufficient funds''))\<rparr>"

text \<open>The wallet cannot pay: the node refuses the transaction.\<close>

definition broke_world :: world where
  "broke_world =
     fair_world\<lparr>fetchUSDPrice :=
       (\<lambda>updateData val gasLimit. Inl (Error ''insufficient funds for gas * price + value''))\<rparr>"

text \<open>No RPC endpoint is configured; the provider behind the default URL answers.\<close>

definition no_rpc_world :: world where
  "no_rpc_world = fair_world\<lparr>env_SEPOLIA_RPC_URL := None\<rparr>"

text \<open>An SDK object without \<^verbatim>\<open>subscribePriceFeedUpdates\<close>: the monitor polls.\<close>

definition polling_world :: world where
  "polling_world = fair_world\<lparr>subscribePriceFeedUpdates := None\<rparr>"

section \<open>Properties of printed lines\<close>

text \<open>
  A text of \<^verbatim>\<open>toFixed\<close> that is not \<^verbatim>\<open>NaN\<close>, one that is a number, and price lines
  made of such texts only.
\<close>

fun is_number_text :: "fixed \<Rightarrow> bool" where
  "is_number_text (Fixed neg n) = True"
| "is_number_text (Number_text x) = True"
| "is_number_text _ = False"

fun is_number_change :: "change \<Rightarrow> bool" where
  "is_number_change Literal_zero = True"
| "is_number_change (Text t) = is_number_text t"

fun no_NaN_or_Infinity :: "event \<Rightarrow> bool" where
  "no_NaN_or_Infinity (Console (Price_line a p plus_sign c)) =
     (is_number_text p \<and> is_number_change c)"
| "no_NaN_or_Infinity _ = True"

fun no_NaN :: "event \<Rightarrow> bool" where
  "no_NaN (Console (Price_line a p plus_sign c)) = (p \<noteq> TextNaN \<and> c \<noteq> Text TextNaN)"
| "no_NaN _ = True"

fun is_price_line :: "event \<Rightarrow> bool" where
  "is_price_line (Console (Price_line a p plus_sign c)) = True"
| "is_price_line _ = False"

text \<open>The price feeds that the callbacks are handed by a list of occurrences.\<close>

fun sampled :: "occurrence \<Rightarrow> price_feed list" where
  "sampled (Update_pushed priceFeed) = [priceFeed]"
| "sampled (Poll_settles (Inr (Some (feed # rest)))) = [feed]"
| "sampled _ = []"

text \<open>
  A number that is finite, and one that is zero or between \<open>2\<^sup>-\<^sup>5\<^sup>0\<^sup>0\<close> and \<open>2\<^sup>5\<^sup>0\<^sup>0\<close> in
  magnitude.
\<close>

fun is_finite :: "number \<Rightarrow> bool" where
  "is_finite (Num x) = True"
| "is_finite _ = False"

fun is_moderate :: "number \<Rightarrow> bool" where
  "is_moderate (Num x) = (x = 0 \<or> (2 powi (- 500) \<le> \<bar>x\<bar> \<and> \<bar>x\<bar> \<le> 2 powi 500))"
| "is_moderate _ = False"


section \<open>Rounding to a double\<close>

lemma pow2_of_int: "0 \<le> k \<Longrightarrow> (of_int (2 ^ nat k) :: rat) = 2 powi k"
  by (simp add: power_int_def)

lemma exponent_bounds:
  assumes "0 < a"
  shows "2 powi exponent a \<le> a \<and> a < 2 powi (exponent a + 1)"
proof -
  obtain p q where pq: "quotient_of a = (p, q)" by (cases "quotient_of a")
  then have q: "0 < q" and a: "a = of_int p / of_int q"
    using quotient_of_denom_pos [of a p q] quotient_of_div [of a p q] by simp_all
  with assms have p: "0 < p"
    by (simp add: zero_less_divide_iff)
  define bp bq where "bp = bitlen p" and "bq = bitlen q"
  have bp: "2 ^ nat (bp - 1) \<le> p" "p < 2 ^ nat bp" and bq: "2 ^ nat (bq - 1) \<le> q" "q < 2 ^ nat bq"
    using bitlen_bounds [OF p] bitlen_bounds [OF q] by (simp_all add: bp_def bq_def)
  have pos: "1 \<le> bp" "1 \<le> bq"
    using p q by (simp_all add: bp_def bq_def bitlen_alt_def)
  have P1: "(2::rat) powi (bp - 1) \<le> of_int p"
    using bp(1) pos pow2_of_int [of "bp - 1"] by (metis diff_ge_0_iff_ge of_int_le_iff)
  have P2: "of_int p < (2::rat) powi bp"
    using bp(2) pos pow2_of_int [of bp] by (metis of_int_less_iff order_trans zero_le_one)
  have Q1: "(2::rat) powi (bq - 1) \<le> of_int q"
    using bq(1) pos pow2_of_int [of "bq - 1"] by (metis diff_ge_0_iff_ge of_int_le_iff)
  have Q2: "of_int q < (2::rat) powi bq"
    using bq(2) pos pow2_of_int [of bq] by (metis of_int_less_iff order_trans zero_le_one)
  have qpos: "(0::rat) < of_int q" using q by simp
  have lower: "(2::rat) powi (bp - bq - 1) < a"
  proof -
    have "(2::rat) powi (bp - bq - 1) = 2 powi (bp - 1) / 2 powi bq"
      by (simp add: power_int_diff [symmetric] algebra_simps)
    also have "\<dots> \<le> of_int p / 2 powi bq"
      using P1 by (simp add: divide_right_mono)
    also have "\<dots> < of_int p / of_int q"
      using Q2 qpos p by (simp add: divide_strict_left_mono)
    finally show ?thesis by (simp add: a)
  qed
  have upper: "a < (2::rat) powi (bp - bq + 1)"
  proof -
    have "a \<le> of_int p / 2 powi (bq - 1)"
      unfolding a using Q1 p by (intro frac_le) simp_all
    also have "\<dots> < 2 powi bp / 2 powi (bq - 1)"
      using P2 by (simp add: divide_strict_right_mono)
    also have "\<dots> = 2 powi (bp - bq + 1)"
      by (simp add: power_int_diff [symmetric] algebra_simps)
    finally show ?thesis .
  qed
  show ?thesis
  proof (cases "(2::rat) powi (bp - bq) \<le> a")
    case True
    then have "exponent a = bp - bq"
      by (simp add: exponent_def pq bp_def bq_def)
    with True upper show ?thesis by simp
  next
    case False
    then have "exponent a = bp - bq - 1"
      by (simp add: exponent_def pq bp_def bq_def)
    with False lower show ?thesis by simp
  qed
qed

lemma exponent_unique:
  assumes "2 powi e \<le> a" and "a < 2 powi (e + 1)"
  shows "exponent a = e"
proof -
  have "(0::rat) < 2 powi e" by simp
  with assms(1) have "0 < a" by linarith
  note b = exponent_bounds [OF this]
  have "e < exponent a + 1"
  proof (rule ccontr)
    assume "\<not> e < exponent a + 1"
    then have "(2::rat) powi (exponent a + 1) \<le> 2 powi e"
      by (intro power_int_increasing) simp_all
    with b assms(1) show False by simp
  qed
  moreover have "exponent a < e + 1"
  proof (rule ccontr)
    assume "\<not> exponent a < e + 1"
    then have "(2::rat) powi (e + 1) \<le> 2 powi exponent a"
      by (intro power_int_increasing) simp_all
    with b assms(2) show False by simp
  qed
  ultimately show ?thesis by simp
qed

lemma rne_error: "\<bar>of_int (rne x) - x\<bar> \<le> 1 / 2"
proof -
  define f where "f = x - of_int \<lfloor>x\<rfloor>"
  have f: "0 \<le> f" "f < 1"
    unfolding f_def by linarith+
  have x: "x = of_int \<lfloor>x\<rfloor> + f"
    by (simp add: f_def)
  have "rne x = \<lfloor>x\<rfloor> \<and> f \<le> 1 / 2 \<or> rne x = \<lfloor>x\<rfloor> + 1 \<and> 1 / 2 \<le> f"
    unfolding rne_def Let_def f_def [symmetric] by (simp only: split: if_splits) linarith
  then show ?thesis
  proof
    assume "rne x = \<lfloor>x\<rfloor> \<and> f \<le> 1 / 2"
    then show ?thesis using f by (subst (2) x) simp
  next
    assume "rne x = \<lfloor>x\<rfloor> + 1 \<and> 1 / 2 \<le> f"
    then show ?thesis using f by (subst (2) x) simp
  qed
qed

lemma rne_unique:
  assumes "\<bar>of_int m - x\<bar> < 1 / 2"
  shows "rne x = m"
proof -
  have "\<bar>(of_int (rne x) :: rat) - of_int m\<bar> < 1"
    using rne_error [of x] assms by linarith
  then have "\<bar>rne x - m\<bar> < 1"
    by (metis of_int_abs of_int_diff of_int_less_1_iff)
  then show ?thesis by simp
qed

lemma rne_of_int [simp]: "rne (of_int n) = n"
  by (rule rne_unique) simp

lemma rne_tie_even:
  assumes "even n"
  shows "rne (of_int n + 1 / 2) = n"
proof -
  have "\<lfloor>(of_int n :: rat) + 1 / 2\<rfloor> = n"
    by (simp add: floor_eq_iff)
  with assms show ?thesis
    by (simp add: rne_def Let_def)
qed

lemma rne_le:
  assumes "x \<le> of_int N"
  shows "rne x \<le> N"
proof (cases "x = of_int N")
  case True
  then show ?thesis by simp
next
  case False
  with assms have "x < of_int N" by simp
  then have "\<lfloor>x\<rfloor> < N" by (simp add: floor_less_iff)
  moreover have "rne x \<le> \<lfloor>x\<rfloor> + 1"
    by (simp add: rne_def Let_def)
  ultimately show ?thesis by simp
qed

lemma rne_nonneg: "0 \<le> x \<Longrightarrow> 0 \<le> rne x"
  by (simp add: rne_def Let_def)

lemma no_overflow: "(2::rat) ^ 1023 < 2 ^ 1024 - 2 ^ 970"
  by simp

lemma round_double_finite:
  assumes "x \<noteq> 0" and "\<bar>x\<bar> < 2 ^ 1024 - 2 ^ 970"
  shows "round_double x =
    Num (sgn x * of_int (rne (\<bar>x\<bar> / 2 powi (max (exponent \<bar>x\<bar>) (- 1022) - 52))) *
      2 powi (max (exponent \<bar>x\<bar>) (- 1022) - 52))"
  using assms by (simp add: round_double_def Let_def)

lemma round_double_not_NaN: "round_double x \<noteq> NaN"
  by (simp add: round_double_def Let_def)

text \<open>
  How a rounding is evaluated: the exponent and the significand are given and checked.
\<close>

lemma round_double_value:
  assumes "2 powi e \<le> \<bar>x\<bar>" and "\<bar>x\<bar> < 2 powi (e + 1)" and "- 1022 \<le> e" and "e \<le> 1022"
    and "rne (\<bar>x\<bar> / 2 powi (e - 52)) = m"
  shows "round_double x = Num (sgn x * of_int m * 2 powi (e - 52))"
proof -
  have "(0::rat) < 2 powi e" by simp
  with assms(1) have "0 < \<bar>x\<bar>" by linarith
  then have x: "x \<noteq> 0" by simp
  have "(2::rat) powi (e + 1) \<le> 2 powi 1023"
    using assms(4) by (intro power_int_increasing) simp_all
  with assms(2) have small: "\<bar>x\<bar> < 2 ^ 1024 - 2 ^ 970"
    using no_overflow by simp
  have "exponent \<bar>x\<bar> = e"
    using assms(1,2) by (rule exponent_unique)
  then show ?thesis
    unfolding round_double_finite [OF x small] using assms(3,5) by (simp add: max_def)
qed


lemma round_double_error:
  assumes "\<bar>x\<bar> < 2 ^ 1024 - 2 ^ 970"
  shows "\<exists>r. round_double x = Num r \<and> \<bar>r - x\<bar> \<le> \<bar>x\<bar> / 2 ^ 53 + 1 / 2 ^ 1075"
proof (cases "x = 0")
  case True
  then show ?thesis by (simp add: round_double_def)
next
  case False
  define e where "e = max (exponent \<bar>x\<bar>) (- 1022)"
  define ulp :: rat where "ulp = 2 powi (e - 52)"
  define m where "m = rne (\<bar>x\<bar> / ulp)"
  have ulp: "0 < ulp" by (simp add: ulp_def)
  have r: "round_double x = Num (sgn x * of_int m * ulp)"
    using round_double_finite [OF False assms] by (simp add: m_def ulp_def e_def)
  have "sgn x * of_int m * ulp - x = sgn x * (of_int m * ulp - \<bar>x\<bar>)"
    by (simp add: algebra_simps sgn_mult_abs abs_mult_sgn)
  then have "\<bar>sgn x * of_int m * ulp - x\<bar> = \<bar>sgn x * (of_int m * ulp - \<bar>x\<bar>)\<bar>"
    by simp
  also have "\<dots> = \<bar>of_int m * ulp - \<bar>x\<bar>\<bar>"
    using False by (simp add: abs_mult)
  also have "\<dots> = ulp * \<bar>of_int m - \<bar>x\<bar> / ulp\<bar>"
  proof -
    have "of_int m * ulp - \<bar>x\<bar> = ulp * (of_int m - \<bar>x\<bar> / ulp)"
      using ulp by (simp add: field_simps)
    then show ?thesis
      using ulp by (simp add: abs_mult)
  qed
  also have "\<dots> \<le> ulp * (1 / 2)"
    using ulp rne_error [of "\<bar>x\<bar> / ulp"] unfolding m_def
    by (intro mult_left_mono) simp_all
  also have "\<dots> = 2 powi e / 2 ^ 53"
    by (simp add: ulp_def power_int_diff)
  also have "\<dots> \<le> \<bar>x\<bar> / 2 ^ 53 + 1 / 2 ^ 1075"
  proof (cases "- 1022 \<le> exponent \<bar>x\<bar>")
    case True
    then have "e = exponent \<bar>x\<bar>" by (simp add: e_def)
    moreover have "2 powi exponent \<bar>x\<bar> \<le> \<bar>x\<bar>"
      using exponent_bounds [of "\<bar>x\<bar>"] \<open>x \<noteq> 0\<close> by simp
    ultimately have "2 powi e / 2 ^ 53 \<le> \<bar>x\<bar> / 2 ^ 53"
      by (simp add: divide_right_mono)
    then show ?thesis by simp
  next
    case False
    then have "e = - 1022" by (simp add: e_def)
    then have "(2::rat) powi e / 2 ^ 53 = 1 / 2 ^ 1075"
      by (simp add: power_int_minus field_simps)
    then show ?thesis by simp
  qed
  finally show ?thesis
    using r by simp
qed

lemma round_double_bounded:
  assumes "\<bar>x\<bar> \<le> 2 powi k" and "- 1074 \<le> k" and "k \<le> 1023"
  shows "\<exists>r. round_double x = Num r \<and> \<bar>r\<bar> \<le> 2 powi k"
proof (cases "x = 0")
  case True
  then show ?thesis by (simp add: round_double_def)
next
  case False
  define e where "e = max (exponent \<bar>x\<bar>) (- 1022)"
  define ulp :: rat where "ulp = 2 powi (e - 52)"
  define m where "m = rne (\<bar>x\<bar> / ulp)"
  have ulp: "0 < ulp" by (simp add: ulp_def)
  have "(2::rat) powi k \<le> 2 powi 1023"
    using assms(3) by (intro power_int_increasing) simp_all
  then have small: "\<bar>x\<bar> < 2 ^ 1024 - 2 ^ 970"
    using assms(1) no_overflow by simp
  have r: "round_double x = Num (sgn x * of_int m * ulp)"
    using round_double_finite [OF False small] by (simp add: m_def ulp_def e_def)
  have "exponent \<bar>x\<bar> \<le> k"
  proof (rule ccontr)
    assume "\<not> exponent \<bar>x\<bar> \<le> k"
    then have "(2::rat) powi (k + 1) \<le> 2 powi exponent \<bar>x\<bar>"
      by (intro power_int_increasing) simp_all
    moreover have "(2::rat) powi k < 2 powi (k + 1)"
      by (intro power_int_strict_increasing) simp_all
    ultimately show False
      using exponent_bounds [of "\<bar>x\<bar>"] False assms(1) by simp
  qed
  then have ek: "0 \<le> k - e + 52"
    using assms(2) by (simp add: e_def)
  have "\<bar>x\<bar> / ulp \<le> 2 powi k / ulp"
    using assms(1) ulp by (simp add: divide_right_mono)
  also have "\<dots> = 2 powi (k - e + 52)"
    by (simp add: ulp_def power_int_diff [symmetric] algebra_simps)
  also have "\<dots> = of_int (2 ^ nat (k - e + 52))"
    using ek by (simp add: power_int_def)
  finally have "m \<le> 2 ^ nat (k - e + 52)"
    unfolding m_def by (rule rne_le)
  then have "(of_int m :: rat) \<le> of_int (2 ^ nat (k - e + 52))"
    by (simp only: of_int_le_iff)
  also have "\<dots> = 2 powi (k - e + 52)"
    using ek by (simp add: power_int_def)
  finally have "of_int m * ulp \<le> 2 powi (k - e + 52) * ulp"
    using ulp by (simp add: mult_right_mono)
  also have "\<dots> = 2 powi k"
    by (simp add: ulp_def power_int_add [symmetric])
  finally have "of_int m * ulp \<le> 2 powi k" .
  moreover have "0 \<le> m"
    using ulp unfolding m_def by (intro rne_nonneg) simp
  ultimately have "\<bar>sgn x * of_int m * ulp\<bar> \<le> 2 powi k"
    using ulp False by (simp add: abs_mult)
  with r show ?thesis by simp
qed

text \<open>Integers up to \<open>2\<^sup>5\<^sup>3\<close> in magnitude are doubles.\<close>

lemma round_double_int:
  assumes "\<bar>n\<bar> \<le> 2 ^ 53"
  shows "round_double (of_int n) = Num (of_int n)"
proof (cases "n = 0")
  case True
  then show ?thesis by (simp add: round_double_def)
next
  case False
  define a :: rat where "a = \<bar>of_int n\<bar>"
  define e where "e = exponent a"
  have a: "1 \<le> a" "a \<le> 2 ^ 53" "a = of_int \<bar>n\<bar>"
    using False assms unfolding a_def
    by (simp_all flip: of_int_abs add: of_int_le_numeral_power_cancel_iff)
  then have b: "2 powi e \<le> a" "a < 2 powi (e + 1)"
    using exponent_bounds [of a] by (simp_all add: e_def)
  have e0: "0 \<le> e"
  proof (rule ccontr)
    assume "\<not> 0 \<le> e"
    then have "(2::rat) powi (e + 1) \<le> 2 powi 0"
      by (intro power_int_increasing) simp_all
    with b(2) a(1) show False by simp
  qed
  have e53: "e \<le> 53"
  proof (rule ccontr)
    assume "\<not> e \<le> 53"
    then have "(2::rat) powi 54 \<le> 2 powi e"
      by (intro power_int_increasing) simp_all
    with b(1) a(2) show False by simp
  qed
  have small: "\<bar>rat_of_int n\<bar> < 2 ^ 1024 - 2 ^ 970"
  proof -
    have "(2::rat) ^ 53 < 2 ^ 1024 - 2 ^ 970" by simp
    with a(2) show ?thesis unfolding a_def by linarith
  qed
  have n0: "rat_of_int n \<noteq> 0" using False by simp
  have max: "max (exponent a) (- 1022) = e"
    using e0 by (simp add: e_def)
  have int: "\<exists>j. a / 2 powi (e - 52) = of_int j"
  proof (cases "e \<le> 52")
    case True
    have "a / 2 powi (e - 52) = a * 2 powi (52 - e)"
      by (simp add: power_int_diff field_simps)
    also have "\<dots> = of_int (\<bar>n\<bar> * 2 ^ nat (52 - e))"
      using True by (simp add: a(3) power_int_def)
    finally show ?thesis by blast
  next
    case False
    with e53 have e: "e = 53" by simp
    with b(1) a(2) have "a = 2 ^ 53" by simp
    then have "a / 2 powi (e - 52) = of_int (2 ^ 52)"
      by (simp add: e)
    then show ?thesis by blast
  qed
  then obtain j where j: "a / 2 powi (e - 52) = of_int j" by blast
  have "round_double (of_int n) = Num (sgn (of_int n) * (a / 2 powi (e - 52)) * 2 powi (e - 52))"
    unfolding round_double_finite [OF n0 small] a_def [symmetric] max
    by (simp add: j)
  also have "sgn (rat_of_int n) * (a / 2 powi (e - 52)) * 2 powi (e - 52) = sgn (of_int n) * a"
    by simp
  also have "\<dots> = of_int n"
    unfolding a_def by (simp add: sgn_mult_abs)
  finally show ?thesis .
qed

lemma Number_exact: "\<bar>n\<bar> \<le> 2 ^ 53 \<Longrightarrow> Number n = Num (of_int n)"
  by (simp add: Number_def round_double_int)

lemma rne_ge:
  assumes "of_int N \<le> x"
  shows "N \<le> rne x"
proof -
  have "N \<le> \<lfloor>x\<rfloor>"
    using assms by (simp add: le_floor_iff)
  moreover have "\<lfloor>x\<rfloor> \<le> rne x"
    by (simp add: rne_def Let_def)
  ultimately show ?thesis by simp
qed

lemma rne_mono:
  assumes "x \<le> y"
  shows "rne x \<le> rne y"
proof (cases "\<lfloor>x\<rfloor> < \<lfloor>y\<rfloor>")
  case True
  have "rne x \<le> \<lfloor>x\<rfloor> + 1"
    by (simp add: rne_def Let_def)
  moreover have "\<lfloor>y\<rfloor> \<le> rne y"
    by (simp add: rne_def Let_def)
  ultimately show ?thesis
    using True by simp
next
  case False
  with floor_mono [OF assms] have eq: "\<lfloor>x\<rfloor> = \<lfloor>y\<rfloor>"
    by simp
  with assms have "x - of_int \<lfloor>y\<rfloor> \<le> y - of_int \<lfloor>y\<rfloor>"
    by simp
  then show ?thesis
    unfolding rne_def Let_def eq by (simp only: split: if_splits) linarith
qed

lemma exponent_mono:
  assumes "0 < x" and "x \<le> y"
  shows "exponent x \<le> exponent y"
proof (rule ccontr)
  assume "\<not> exponent x \<le> exponent y"
  then have "(2::rat) powi (exponent y + 1) \<le> 2 powi exponent x"
    by (intro power_int_increasing) simp_all
  moreover have "y < 2 powi (exponent y + 1)"
    using exponent_bounds [of y] assms by simp
  moreover have "2 powi exponent x \<le> x"
    using exponent_bounds [OF assms(1)] by simp
  ultimately show False
    using assms(2) by linarith
qed

text \<open>Rounding keeps the order of positive numbers.\<close>

lemma round_double_mono:
  assumes "0 < x" and "x \<le> y" and "y < 2 ^ 1024 - 2 ^ 970"
  shows "\<exists>r s. round_double x = Num r \<and> round_double y = Num s \<and> r \<le> s"
proof -
  define ex where "ex = max (exponent x) (- 1022)"
  define ey where "ey = max (exponent y) (- 1022)"
  define ux :: rat where "ux = 2 powi (ex - 52)"
  define uy :: rat where "uy = 2 powi (ey - 52)"
  have y: "0 < y"
    using assms by simp
  have ux: "0 < ux" and uy: "0 < uy"
    by (simp_all add: ux_def uy_def)
  have rx: "round_double x = Num (of_int (rne (x / ux)) * ux)"
    using round_double_finite [of x] assms by (simp add: ex_def ux_def)
  have ry: "round_double y = Num (of_int (rne (y / uy)) * uy)"
    using round_double_finite [of y] assms y by (simp add: ey_def uy_def)
  have le: "ex \<le> ey"
    using exponent_mono [OF assms(1,2)] by (simp add: ex_def ey_def)
  have "of_int (rne (x / ux)) * ux \<le> of_int (rne (y / uy)) * uy"
  proof (cases "ex = ey")
    case True
    then have u: "ux = uy"
      by (simp add: ux_def uy_def)
    have "x / uy \<le> y / uy"
      using assms(2) uy by (simp add: divide_right_mono)
    then have "rne (x / uy) \<le> rne (y / uy)"
      by (rule rne_mono)
    then have "(of_int (rne (x / uy)) :: rat) \<le> of_int (rne (y / uy))"
      by (simp only: of_int_le_iff)
    then show ?thesis
      unfolding u using uy by (simp add: mult_right_mono)
  next
    case False
    with le have lt: "ex + 1 \<le> ey"
      by simp
    then have ey: "ey = exponent y"
      by (simp add: ex_def ey_def)
    have "x < 2 powi (exponent x + 1)"
      using exponent_bounds [OF assms(1)] by simp
    also have "\<dots> \<le> 2 powi (ex + 1)"
      by (intro power_int_increasing) (simp_all add: ex_def)
    finally have "x / ux \<le> 2 powi (ex + 1) / ux"
      using ux by (simp add: divide_right_mono)
    also have "\<dots> = 2 powi 53"
      by (simp add: ux_def power_int_diff [symmetric])
    also have "\<dots> = of_int (2 ^ 53)"
      by simp
    finally have "rne (x / ux) \<le> 2 ^ 53"
      by (rule rne_le)
    then have "(of_int (rne (x / ux)) :: rat) \<le> of_int (2 ^ 53)"
      by (simp only: of_int_le_iff)
    then have "of_int (rne (x / ux)) * ux \<le> of_int (2 ^ 53) * ux"
      using ux by (simp add: mult_right_mono)
    also have "\<dots> = 2 powi (ex + 1)"
    proof -
      have "(2::rat) powi (53 + (ex - 52)) = 2 powi 53 * 2 powi (ex - 52)"
        by (rule power_int_add) simp
      then show ?thesis
        by (simp add: ux_def add.commute)
    qed
    also have "\<dots> \<le> 2 powi ey"
      using lt by (intro power_int_increasing) simp_all
    also have "\<dots> = of_int (2 ^ 52) * uy"
    proof -
      have "(2::rat) powi (52 + (ey - 52)) = 2 powi 52 * 2 powi (ey - 52)"
        by (rule power_int_add) simp
      then show ?thesis
        by (simp add: uy_def add.commute)
    qed
    also have "\<dots> \<le> of_int (rne (y / uy)) * uy"
    proof -
      have "2 powi ey \<le> y"
        using exponent_bounds [OF y] by (simp add: ey)
      then have "2 powi ey / uy \<le> y / uy"
        using uy by (simp add: divide_right_mono)
      moreover have "2 powi ey / uy = of_int (2 ^ 52)"
        by (simp add: uy_def power_int_diff [symmetric])
      ultimately have "2 ^ 52 \<le> rne (y / uy)"
        by (intro rne_ge) simp
      then have "(of_int (2 ^ 52) :: rat) \<le> of_int (rne (y / uy))"
        by (simp only: of_int_le_iff)
      then show ?thesis
        using uy by (simp add: mult_right_mono)
    qed
    finally show ?thesis .
  qed
  with rx ry show ?thesis
    by simp
qed

section \<open>The sample prices\<close>

lemma sample_time: "milliseconds 1700000000 = Num 1700000000000"
proof -
  have "round_double (of_int 1700000000000) = Num (of_int 1700000000000)"
    by (rule round_double_int) simp
  then show ?thesis
    by (simp add: milliseconds_def Number_exact)
qed

lemma fair_pow_minus8: "Math_pow10 fair_world (- 8) = Num (6044629098073146 / 2 ^ 79)"
proof -
  have "round_double (10 powi (- 8)) = Num (sgn (10 powi (- 8)) * of_int 6044629098073146 * 2 powi (- 27 - 52))"
    by (rule round_double_value; (rule rne_unique)?; simp add: power_int_minus)
  then show ?thesis
    by (simp add: Math_pow10_def fair_world_def power_int_minus)
qed


section \<open>Results and effects of the combinators\<close>

lemma fst_io_bind:
  "fst (io_bind m f) = (case fst m of Inl e \<Rightarrow> Inl e | Inr x \<Rightarrow> fst (f x))"
  by (cases m) (auto simp: io_bind_def split: sum.splits prod.splits)

lemma snd_io_bind:
  "snd (io_bind m f) = snd m @ (case fst m of Inl e \<Rightarrow> [] | Inr x \<Rightarrow> snd (f x))"
  by (cases m) (auto simp: io_bind_def split: sum.splits prod.splits)

lemma fst_io_then:
  "fst (io_then m k) = (case fst m of Inl e \<Rightarrow> Inl e | Inr x \<Rightarrow> fst k)"
  by (simp add: io_then_def fst_io_bind)

lemma snd_io_then:
  "snd (io_then m k) = snd m @ (case fst m of Inl e \<Rightarrow> [] | Inr x \<Rightarrow> snd k)"
  by (simp add: io_then_def snd_io_bind)

lemma fst_io_catch:
  "fst (io_catch m h) = (case fst m of Inl e \<Rightarrow> fst (h e) | Inr x \<Rightarrow> Inr x)"
  by (cases m) (auto simp: io_catch_def split: sum.splits prod.splits)

lemma snd_io_catch:
  "snd (io_catch m h) = snd m @ (case fst m of Inl e \<Rightarrow> snd (h e) | Inr x \<Rightarrow> [])"
  by (cases m) (auto simp: io_catch_def split: sum.splits prod.splits)

lemma io_simps [simp]:
  "fst (io_return x) = Inr x" "snd (io_return x) = []"
  "fst (io_throw e) = Inl e" "snd (io_throw e) = []"
  "fst (io_log l) = Inr ()" "snd (io_log l) = [Console l]"
  "fst (io_emit ev) = Inr ()" "snd (io_emit ev) = [ev]"
  "fst (io_call ev a) = a" "snd (io_call ev a) = [ev]"
  by (simp_all add: io_return_def io_throw_def io_log_def io_emit_def io_call_def)

lemmas io_fs = fst_io_bind snd_io_bind fst_io_then snd_io_then fst_io_catch snd_io_catch

lemma urls_differ: "LATEST_PRICE_FEEDS_URL \<noteq> LATEST_VAAS_URL"
  by (simp add: LATEST_PRICE_FEEDS_URL_def LATEST_VAAS_URL_def)

lemma rest_body_fetch_once:
  "count_list (snd (rest_body w)) (Call_fetch LATEST_PRICE_FEEDS_URL) = 1"
  using urls_differ
  by (simp add: rest_body_def io_fs split: sum.splits option.splits list.splits)

lemma rest_fetch_once:
  "count_list (snd (getPriceUpdateDataViaRest w)) (Call_fetch LATEST_PRICE_FEEDS_URL) = 1"
  by (simp add: getPriceUpdateDataViaRest_def io_fs rest_body_fetch_once split: sum.splits)

lemma make_updateData_no_fetch: "Call_fetch u \<notin> set (snd (make_updateData w fs))"
  by (simp add: make_updateData_def split: sum.splits option.splits)

lemma primary_no_fetch: "Call_fetch u \<notin> set (snd (primary_body w))"
  by (simp add: primary_body_def io_fs make_updateData_no_fetch split: sum.splits option.splits list.splits)


lemma fst_lift_plain:
  "fst (lift_plain m) = (case fst m of Inl e \<Rightarrow> Inl e | Inr v \<Rightarrow> Inr (Plain v))"
  by (cases m) (auto simp: lift_plain_def split: sum.splits)

lemma snd_lift_plain: "snd (lift_plain m) = snd m"
  by (cases m) (auto simp: lift_plain_def split: sum.splits)

lemma fst_settle:
  "fst (settle m) =
     (case fst m of Inl e \<Rightarrow> Inl e | Inr (Plain v) \<Rightarrow> Inr v | Inr (Promise r) \<Rightarrow> r)"
  by (cases m) (auto simp: settle_def split: sum.splits returned.splits)

lemma snd_settle: "snd (settle m) = snd m"
  by (cases m) (auto simp: settle_def split: sum.splits returned.splits)

lemmas io_fs2 = io_fs fst_lift_plain snd_lift_plain fst_settle snd_settle

lemma fallback_result:
  assumes "fst (primary_body w) = Inl e"
  shows "fst (getPriceUpdateData w) = fst (getPriceUpdateDataViaRest w)"
  using assms by (simp add: getPriceUpdateData_def io_fs2 split: sum.splits)

lemma fallback_trace:
  assumes "fst (primary_body w) = Inl e"
  shows "snd (getPriceUpdateData w) =
     Console Fetching_latest_price_data # snd (primary_body w) @
     [Console (Error_fetching_price_data (message e)), Console Trying_alternative_method] @
     snd (getPriceUpdateDataViaRest w)"
  using assms by (simp add: getPriceUpdateData_def io_fs2 split: sum.splits)

lemma hex_digit_in: "n < 16 \<Longrightarrow> hex_digit n \<in> set ''0123456789abcdef''"
  unfolding hex_digit_def by (rule nth_mem) simp

lemma hex_of_byte_digits: "set (hex_of_byte b) \<subseteq> set ''0123456789abcdef''"
proof -
  have "unat b < 256" using unsigned_less [of b] by simp
  then have "unat b div 16 < 16" "unat b mod 16 < 16" by auto
  then show ?thesis
    unfolding hex_of_byte_def using hex_digit_in by (metis empty_set insert_subset list.simps(15) subsetI empty_iff)
qed

lemma toString_hex_digits: "set (toString_hex bs) \<subseteq> set ''0123456789abcdef''"
  unfolding toString_hex_def using hex_of_byte_digits by (induction bs) auto

lemma rest_success:
  assumes "fst (getPriceUpdateDataViaRest w) = Inr payload"
  shows "\<exists>r vaas. fetch_latest_vaas w LATEST_VAAS_URL = Inr r \<and> json r = Inr (Some vaas) \<and>
           payload = map (\<lambda>vaa. ''0x'' @ toString_hex (Buffer_from_base64 w vaa)) vaas"
  using assms
  by (auto simp add: getPriceUpdateDataViaRest_def rest_body_def io_fs
      split: sum.splits option.splits list.splits if_splits)




lemma length_toString_hex: "length (toString_hex bs) = 2 * length bs"
  by (induction bs) (simp_all add: toString_hex_def hex_of_byte_def)

lemma hex_payload:
  assumes "payload = map (\<lambda>vaa. ''0x'' @ toString_hex (Buffer_from_base64 w vaa)) vaas"
    and "s \<in> set payload"
  shows "prefix ''0x'' s \<and> set (drop 2 s) \<subseteq> set ''0123456789abcdef'' \<and>
    even (length (drop 2 s))"
proof -
  from assms obtain vaa where s: "s = ''0x'' @ toString_hex (Buffer_from_base64 w vaa)"
    by auto
  have "drop 2 s = toString_hex (Buffer_from_base64 w vaa)"
    by (simp add: s)
  with toString_hex_digits [of "Buffer_from_base64 w vaa"] show ?thesis
    by (simp add: s length_toString_hex)
qed

section \<open>The fallback of the price fetch\<close>

lemma sdk_down_primary: "fst (primary_body sdk_down_world) = Inl (Error ''network down'')"
  by (simp add: primary_body_def io_fs sdk_down_world_def fair_world_def)

lemma sdk_down_rest: "fst (getPriceUpdateDataViaRest sdk_down_world) = Inr [''0x010203'']"
  by (simp add: getPriceUpdateDataViaRest_def rest_body_def io_fs sdk_down_world_def
      fair_world_def toString_hex_def hex_of_byte_def hex_digit_def)

lemma bare_vaa_primary: "fst (primary_body bare_vaa_world) = Inl (Error ''network down'')"
  by (simp add: primary_body_def io_fs bare_vaa_world_def sdk_down_world_def fair_world_def)

lemma bare_vaa_rest: "fst (getPriceUpdateDataViaRest bare_vaa_world) = Inr [''0x'']"
  by (simp add: getPriceUpdateDataViaRest_def rest_body_def io_fs bare_vaa_world_def
      sdk_down_world_def fair_world_def toString_hex_def)

lemma promise_primary:
  "primary_body promise_world =
     (Inr (Promise (Inl (Error ''Request failed with status code 400''))),
      [Call_getLatestPriceFeeds [ETH_USD_PRICE_ID],
       Console (Current_price (toFixed2 (readablePrice promise_world sample_price))),
       Console (Last_updated (Num 1700000000000)),
       Call_getPriceFeedsUpdateData,
       Console Price_update_data_ready])"
  by (simp add: primary_body_def make_updateData_def io_bind_def io_then_def io_call_def
      io_log_def io_return_def promise_world_def fair_world_def sample_feed_def
      sample_price_def sample_time)

text \<open>
  C2, as stated, fails in two ways. When the REST API answers a VAA that decodes to no
  bytes, the fallback succeeds with the bare \<^verbatim>\<open>0x\<close>, a string without any hexadecimal
  digit. And when the primary path fails by a promise that the serialising method
  returned and that is rejected, the failure reaches the caller and the fallback does
  not run: it is not announced and nothing is fetched.
\<close>

theorem fallback_claim_counterexample:
  "fst (primary_body bare_vaa_world) = Inl (Error ''network down'') \<and>
   fst (getPriceUpdateData bare_vaa_world) = Inr [''0x''] \<and>
   fst (getPriceUpdateData promise_world) =
     Inl (Error ''Request failed with status code 400'') \<and>
   Console Trying_alternative_method \<notin> set (snd (getPriceUpdateData promise_world)) \<and>
   count_list (snd (getPriceUpdateData promise_world)) (Call_fetch LATEST_PRICE_FEEDS_URL) = 0"
proof -
  have "fst (getPriceUpdateData bare_vaa_world) = Inr [''0x'']"
    using fallback_result [OF bare_vaa_primary] bare_vaa_rest by simp
  moreover have "fst (getPriceUpdateData promise_world) =
      Inl (Error ''Request failed with status code 400'')"
    by (simp add: getPriceUpdateData_def io_fs2 promise_primary)
  moreover have "snd (getPriceUpdateData promise_world) =
      Console Fetching_latest_price_data # snd (primary_body promise_world)"
    by (simp add: getPriceUpdateData_def io_fs2 promise_primary)
  then have "Console Trying_alternative_method \<notin> set (snd (getPriceUpdateData promise_world))"
    "count_list (snd (getPriceUpdateData promise_world)) (Call_fetch LATEST_PRICE_FEEDS_URL) = 0"
    by (simp_all add: promise_primary)
  ultimately show ?thesis
    using bare_vaa_primary by simp
qed

text \<open>
  C2, amended. Whenever the \<^verbatim>\<open>try\<close> block of \<^verbatim>\<open>getPriceUpdateData\<close> throws, the REST
  fallback runs exactly once: the result is the fallback's result, the effects are those
  of the primary path, the two lines of the \<^verbatim>\<open>catch\<close> block and one copy of the fallback's
  effects, and \<^verbatim>\<open>latest_price_feeds\<close> is requested once. When the fallback succeeds, its
  payload holds, in order, one string for each VAA of the \<^verbatim>\<open>latest_vaas\<close> body: \<^verbatim>\<open>0x\<close>
  followed by the hexadecimal text of the base64-decoded VAA, two lower-case digits for
  each byte. The list is as long as the body's, so possibly empty, and a string has as
  many digits as its VAA has bytes, so possibly none.
\<close>

theorem rest_fallback_once_hex_encoding:
  assumes "fst (primary_body w) = Inl e"
  shows "fst (getPriceUpdateData w) = fst (getPriceUpdateDataViaRest w) \<and>
    snd (getPriceUpdateData w) =
      Console Fetching_latest_price_data # snd (primary_body w) @
      [Console (Error_fetching_price_data (message e)), Console Trying_alternative_method] @
      snd (getPriceUpdateDataViaRest w) \<and>
    count_list (snd (getPriceUpdateData w)) (Call_fetch LATEST_PRICE_FEEDS_URL) = 1 \<and>
    (\<forall>payload. fst (getPriceUpdateData w) = Inr payload \<longrightarrow>
       (\<exists>r vaas. fetch_latest_vaas w LATEST_VAAS_URL = Inr r \<and> json r = Inr (Some vaas) \<and>
          payload = map (\<lambda>vaa. ''0x'' @ toString_hex (Buffer_from_base64 w vaa)) vaas) \<and>
       (\<forall>s \<in> set payload.
          prefix ''0x'' s \<and> set (drop 2 s) \<subseteq> set ''0123456789abcdef'' \<and>
          even (length (drop 2 s))))"
proof (intro conjI allI impI)
  show r: "fst (getPriceUpdateData w) = fst (getPriceUpdateDataViaRest w)"
    using assms by (rule fallback_result)
  show t: "snd (getPriceUpdateData w) =
      Console Fetching_latest_price_data # snd (primary_body w) @
      [Console (Error_fetching_price_data (message e)), Console Trying_alternative_method] @
      snd (getPriceUpdateDataViaRest w)"
    using assms by (rule fallback_trace)
  have "count_list (snd (primary_body w)) (Call_fetch LATEST_PRICE_FEEDS_URL) = 0"
    using primary_no_fetch [of LATEST_PRICE_FEEDS_URL w] by (simp add: count_list_0_iff)
  then show "count_list (snd (getPriceUpdateData w)) (Call_fetch LATEST_PRICE_FEEDS_URL) = 1"
    by (simp add: t rest_fetch_once)
next
  fix payload
  assume "fst (getPriceUpdateData w) = Inr payload"
  then have ok: "fst (getPriceUpdateDataViaRest w) = Inr payload"
    using fallback_result [OF assms] by simp
  from rest_success [OF ok]
  show ex: "\<exists>r vaas. fetch_latest_vaas w LATEST_VAAS_URL = Inr r \<and> json r = Inr (Some vaas) \<and>
          payload = map (\<lambda>vaa. ''0x'' @ toString_hex (Buffer_from_base64 w vaa)) vaas" .
  then obtain vaas where
    "payload = map (\<lambda>vaa. ''0x'' @ toString_hex (Buffer_from_base64 w vaa)) vaas"
    by blast
  then show "\<forall>s \<in> set payload.
          prefix ''0x'' s \<and> set (drop 2 s) \<subseteq> set ''0123456789abcdef'' \<and>
          even (length (drop 2 s))"
    using hex_payload by blast
qed

theorem rest_fallback_once_hex_encoding_witness:
  "fst (primary_body sdk_down_world) = Inl (Error ''network down'') \<and>
   fst (getPriceUpdateData sdk_down_world) = Inr [''0x010203''] \<and>
   count_list (snd (getPriceUpdateData sdk_down_world)) (Call_fetch LATEST_PRICE_FEEDS_URL) = 1 \<and>
   ''0x010203'' \<in> set [''0x010203''] \<and>
   prefix ''0x'' ''0x010203'' \<and> set (drop 2 ''0x010203'') \<subseteq> set ''0123456789abcdef'' \<and>
   even (length (drop 2 ''0x010203''))"
proof -
  note fallback = rest_fallback_once_hex_encoding [OF sdk_down_primary]
  have "fst (getPriceUpdateData sdk_down_world) = Inr [''0x010203'']"
    using fallback [THEN conjunct1] sdk_down_rest by simp
  moreover have "count_list (snd (getPriceUpdateData sdk_down_world))
      (Call_fetch LATEST_PRICE_FEEDS_URL) = 1"
    using fallback [THEN conjunct2, THEN conjunct2, THEN conjunct1] .
  ultimately show ?thesis
    using sdk_down_primary by simp
qed

section \<open>No retry\<close>

lemma make_updateData_sdk_calls:
  "count_list (snd (make_updateData w fs)) (Call_getLatestPriceFeeds ids) = 0"
  by (simp add: make_updateData_def split: sum.splits option.splits)

lemma primary_requests_once:
  "count_list (snd (primary_body w)) (Call_getLatestPriceFeeds [ETH_USD_PRICE_ID]) = 1"
  by (simp add: primary_body_def io_fs make_updateData_sdk_calls
      split: sum.splits option.splits list.splits)

lemma rest_body_no_sdk:
  "count_list (snd (rest_body w)) (Call_getLatestPriceFeeds ids) = 0"
  by (simp add: rest_body_def io_fs split: sum.splits option.splits list.splits)

lemma rest_body_vaas_at_most_once:
  "count_list (snd (rest_body w)) (Call_fetch LATEST_VAAS_URL) \<le> 1"
  using urls_differ
  by (simp add: rest_body_def io_fs split: sum.splits option.splits list.splits)

lemma rest_body_no_retry_line:
  "count_list (snd (rest_body w)) (Console Trying_alternative_method) = 0"
  by (simp add: rest_body_def io_fs split: sum.splits option.splits list.splits)

lemma make_updateData_no_retry_line:
  "count_list (snd (make_updateData w fs)) (Console Trying_alternative_method) = 0"
  by (simp add: make_updateData_def split: sum.splits option.splits)

lemma primary_no_retry_line:
  "count_list (snd (primary_body w)) (Console Trying_alternative_method) = 0"
  by (simp add: primary_body_def io_fs make_updateData_no_retry_line
      split: sum.splits option.splits list.splits)

lemma make_updateData_no_fetch_count:
  "count_list (snd (make_updateData w fs)) (Call_fetch u) = 0"
  by (simp add: make_updateData_def split: sum.splits option.splits)

lemma primary_no_fetch_count:
  "count_list (snd (primary_body w)) (Call_fetch u) = 0"
  using primary_no_fetch [of u w] by (simp add: count_list_0_iff)

lemma rest_failed:
  assumes "fst (getPriceUpdateDataViaRest w) = Inl e"
  shows "fst (rest_body w) = Inl e \<and>
    snd (getPriceUpdateDataViaRest w) =
      snd (rest_body w) @ [Console (REST_fallback_failed (message e))]"
  using assms by (auto simp add: getPriceUpdateDataViaRest_def io_fs split: sum.splits)

text \<open>
  C3. When the \<^verbatim>\<open>try\<close> block of \<^verbatim>\<open>getPriceUpdateData\<close> throws and the REST fallback fails
  too, the caller gets the error the fallback's own body raised. Nothing is retried: the
  SDK is asked for the latest feeds once, the fallback is announced once, each of the two
  REST requests is made at most once (the first exactly once), and the last effect is the
  line that reports the fallback's failure.
\<close>

theorem both_paths_fail_propagates:
  assumes "fst (primary_body w) = Inl e1"
    and "fst (getPriceUpdateDataViaRest w) = Inl e2"
  shows "fst (getPriceUpdateData w) = Inl e2 \<and>
    fst (rest_body w) = Inl e2 \<and>
    count_list (snd (getPriceUpdateData w)) (Call_getLatestPriceFeeds [ETH_USD_PRICE_ID]) = 1 \<and>
    count_list (snd (getPriceUpdateData w)) (Console Trying_alternative_method) = 1 \<and>
    count_list (snd (getPriceUpdateData w)) (Call_fetch LATEST_PRICE_FEEDS_URL) = 1 \<and>
    count_list (snd (getPriceUpdateData w)) (Call_fetch LATEST_VAAS_URL) \<le> 1 \<and>
    last (snd (getPriceUpdateData w)) = Console (REST_fallback_failed (message e2))"
proof -
  note rest = rest_failed [OF assms(2)]
  have t: "snd (getPriceUpdateData w) =
      Console Fetching_latest_price_data # snd (primary_body w) @
      [Console (Error_fetching_price_data (message e1)), Console Trying_alternative_method] @
      snd (rest_body w) @ [Console (REST_fallback_failed (message e2))]"
    using fallback_trace [OF assms(1)] rest by simp
  have "fst (getPriceUpdateData w) = Inl e2"
    using fallback_result [OF assms(1)] assms(2) by simp
  moreover have "fst (rest_body w) = Inl e2"
    using rest by simp
  moreover have
    "count_list (snd (getPriceUpdateData w)) (Call_getLatestPriceFeeds [ETH_USD_PRICE_ID]) = 1"
    by (simp add: t primary_requests_once rest_body_no_sdk)
  moreover have
    "count_list (snd (getPriceUpdateData w)) (Console Trying_alternative_method) = 1"
    by (simp add: t primary_no_retry_line rest_body_no_retry_line)
  moreover have
    "count_list (snd (getPriceUpdateData w)) (Call_fetch LATEST_PRICE_FEEDS_URL) = 1"
    by (simp add: t primary_no_fetch_count rest_body_fetch_once)
  moreover have
    "count_list (snd (getPriceUpdateData w)) (Call_fetch LATEST_VAAS_URL) \<le> 1"
    using rest_body_vaas_at_most_once [of w] by (simp add: t primary_no_fetch_count)
  moreover have "last (snd (getPriceUpdateData w)) = Console (REST_fallback_failed (message e2))"
    by (simp add: t)
  ultimately show ?thesis by blast
qed

lemma all_down_primary: "fst (primary_body all_down_world) = Inl (Error ''network down'')"
  by (simp add: primary_body_def io_fs all_down_world_def sdk_down_world_def fair_world_def)

lemma all_down_rest: "fst (getPriceUpdateDataViaRest all_down_world) = Inl (Error ''fetch failed'')"
  by (simp add: getPriceUpdateDataViaRest_def rest_body_def io_fs all_down_world_def
      sdk_down_world_def fair_world_def)

theorem both_paths_fail_propagates_witness:
  "fst (primary_body all_down_world) = Inl (Error ''network down'') \<and>
   fst (getPriceUpdateDataViaRest all_down_world) = Inl (Error ''fetch failed'') \<and>
   fst (getPriceUpdateData all_down_world) = Inl (Error ''fetch failed'') \<and>
   count_list (snd (getPriceUpdateData all_down_world))
     (Call_getLatestPriceFeeds [ETH_USD_PRICE_ID]) = 1 \<and>
   count_list (snd (getPriceUpdateData all_down_world)) (Call_fetch LATEST_PRICE_FEEDS_URL) = 1 \<and>
   last (snd (getPriceUpdateData all_down_world)) = Console (REST_fallback_failed ''fetch failed'')"
proof -
  note both = both_paths_fail_propagates [OF all_down_primary all_down_rest]
  show ?thesis
    using all_down_primary all_down_rest both by simp
qed

text \<open>
  The \<^verbatim>\<open>try\<close> block does not await what the serialising method returns. If that is a
  promise which is rejected later, nothing was thrown inside the block: the rejection
  reaches the caller and the fallback does not run.
\<close>

lemma rejected_promise_skips_fallback:
  assumes "getLatestPriceFeeds w = Inr (Some (feed # rest))"
    and "getPriceUpdatesData w = Some f"
    and "f (feed # rest) = Inr (Promise (Inl e))"
  shows "fst (getPriceUpdateData w) = Inl e \<and>
    count_list (snd (getPriceUpdateData w)) (Call_fetch LATEST_PRICE_FEEDS_URL) = 0"
  using assms
  by (simp add: getPriceUpdateData_def primary_body_def make_updateData_def io_fs2)

section \<open>The contract call\<close>

lemma call_body_trace:
  "snd (call_body w) =
     snd (getPriceUpdateData w) @
     (case fst (getPriceUpdateData w) of
        Inl e \<Rightarrow> []
      | Inr p \<Rightarrow>
          Call_getUpdateFee p #
          (case getUpdateFee w p of
             Inl e \<Rightarrow> []
           | Inr fee \<Rightarrow>
               [Console (Update_fee_required fee), Console Sending_transaction,
                Call_fetchUSDPrice p fee 500000] @
               (case fetchUSDPrice w p fee 500000 of
                  Inl e \<Rightarrow> []
                | Inr t \<Rightarrow>
                    [Console (Transaction_hash (hash t)), Console Waiting_for_confirmation,
                     Call_wait (hash t)] @
                    (case wait t of
                       Inl e \<Rightarrow> []
                     | Inr r \<Rightarrow>
                         [Console (Transaction_confirmed (blockNumber r)),
                          Console (Gas_used (gasUsed r))]))))"
  by (simp add: call_body_def io_fs split: sum.splits)

lemma make_updateData_fetch_phase:
  "Call_getUpdateFee p \<notin> set (snd (make_updateData w fs))"
  "Call_fetchUSDPrice p v g \<notin> set (snd (make_updateData w fs))"
  "Console Fetching_latest_price_data \<notin> set (snd (make_updateData w fs))"
  by (simp_all add: make_updateData_def split: sum.splits option.splits)

lemma primary_fetch_phase:
  "Call_getUpdateFee p \<notin> set (snd (primary_body w))"
  "Call_fetchUSDPrice p v g \<notin> set (snd (primary_body w))"
  "Console Fetching_latest_price_data \<notin> set (snd (primary_body w))"
  by (simp_all add: primary_body_def io_fs make_updateData_fetch_phase
      split: sum.splits option.splits list.splits)

lemma rest_fetch_phase:
  "Call_getUpdateFee p \<notin> set (snd (getPriceUpdateDataViaRest w))"
  "Call_fetchUSDPrice p v g \<notin> set (snd (getPriceUpdateDataViaRest w))"
  "Console Fetching_latest_price_data \<notin> set (snd (getPriceUpdateDataViaRest w))"
  by (simp_all add: getPriceUpdateDataViaRest_def rest_body_def io_fs
      split: sum.splits option.splits list.splits)

lemma getPriceUpdateData_trace:
  "snd (getPriceUpdateData w) =
     Console Fetching_latest_price_data # snd (primary_body w) @
     (case fst (primary_body w) of
        Inl e \<Rightarrow>
          [Console (Error_fetching_price_data (message e)), Console Trying_alternative_method] @
          snd (getPriceUpdateDataViaRest w)
      | Inr v \<Rightarrow> [])"
  by (simp add: getPriceUpdateData_def io_fs2 split: sum.splits)

lemma fetch_phase:
  "Call_getUpdateFee p \<notin> set (snd (getPriceUpdateData w))"
  "Call_fetchUSDPrice p v g \<notin> set (snd (getPriceUpdateData w))"
  by (simp_all add: getPriceUpdateData_trace primary_fetch_phase rest_fetch_phase
      split: sum.splits)

lemma fetch_announced_once:
  "count_list (snd (getPriceUpdateData w)) (Console Fetching_latest_price_data) = 1"
  by (simp add: getPriceUpdateData_trace primary_fetch_phase rest_fetch_phase
      count_list_0_iff split: sum.splits)

lemma callFetchUSDPrice_trace:
  "snd (callFetchUSDPrice w) =
     Console Calling_fetchUSDPrice # snd (call_body w) @
     (case fst (call_body w) of
        Inl e \<Rightarrow>
          Console (Error_calling_contract_method (message e)) #
          (if str_includes (message e) ''insufficient funds'' then [Console Tip_more_ETH]
           else if str_includes (message e) ''execution reverted''
             then [Console Tip_call_failed]
           else [])
      | Inr r \<Rightarrow> [])"
  by (simp add: callFetchUSDPrice_def io_fs split: sum.splits)

text \<open>
  C1. A transaction is submitted to \<^verbatim>\<open>fetchUSDPrice\<close> with payload \<open>p\<close>, value \<open>v\<close> and
  gas limit \<open>g\<close> exactly when \<open>p\<close> is the update data that was fetched, \<open>v\<close> is the fee
  that \<^verbatim>\<open>getUpdateFee\<close> answered for \<open>p\<close>, and \<open>g\<close> is 500000.
\<close>

theorem submission_pays_the_quoted_fee:
  "Call_fetchUSDPrice p v g \<in> set (snd (callFetchUSDPrice w)) \<longleftrightarrow>
     fst (getPriceUpdateData w) = Inr p \<and> getUpdateFee w p = Inr v \<and> g = 500000"
  by (auto simp add: callFetchUSDPrice_trace call_body_trace fetch_phase
      split: sum.splits if_splits)

lemma fair_fetch: "fst (getPriceUpdateData fair_world) = Inr [''0x504e4155'']"
  by (simp add: getPriceUpdateData_def primary_body_def make_updateData_def io_fs2
      fair_world_def sample_feed_def)

theorem submission_pays_the_quoted_fee_witness:
  "fst (getPriceUpdateData fair_world) = Inr [''0x504e4155''] \<and>
   getUpdateFee fair_world [''0x504e4155''] = Inr 1 \<and>
   Call_fetchUSDPrice [''0x504e4155''] 1 500000 \<in> set (snd (callFetchUSDPrice fair_world))"
proof -
  have fee: "getUpdateFee fair_world [''0x504e4155''] = Inr 1"
    by (simp add: fair_world_def)
  show ?thesis
    using submission_pays_the_quoted_fee [of "[''0x504e4155'']" 1 500000 fair_world]
      fair_fetch fee
    by simp
qed

text \<open>
  C5. Whatever payload is passed to \<^verbatim>\<open>getUpdateFee\<close> or to \<^verbatim>\<open>fetchUSDPrice\<close> is the value
  that \<^verbatim>\<open>getPriceUpdateData\<close> returned. That fetch is the first thing each invocation
  does and it is made once, so nothing is kept from an earlier invocation.
\<close>

theorem payload_is_the_one_just_fetched:
  "(Call_getUpdateFee p \<in> set (snd (callFetchUSDPrice w)) \<longrightarrow>
      fst (getPriceUpdateData w) = Inr p) \<and>
   (Call_fetchUSDPrice q v g \<in> set (snd (callFetchUSDPrice w)) \<longrightarrow>
      fst (getPriceUpdateData w) = Inr q) \<and>
   prefix (Console Calling_fetchUSDPrice # snd (getPriceUpdateData w))
     (snd (callFetchUSDPrice w)) \<and>
   count_list (snd (callFetchUSDPrice w)) (Console Fetching_latest_price_data) = 1"
proof (intro conjI impI)
  assume "Call_getUpdateFee p \<in> set (snd (callFetchUSDPrice w))"
  then show "fst (getPriceUpdateData w) = Inr p"
    by (auto simp add: callFetchUSDPrice_trace call_body_trace fetch_phase
        split: sum.splits if_splits)
next
  assume "Call_fetchUSDPrice q v g \<in> set (snd (callFetchUSDPrice w))"
  then show "fst (getPriceUpdateData w) = Inr q"
    by (auto simp add: callFetchUSDPrice_trace call_body_trace fetch_phase
        split: sum.splits if_splits)
next
  show "prefix (Console Calling_fetchUSDPrice # snd (getPriceUpdateData w))
     (snd (callFetchUSDPrice w))"
    by (simp add: callFetchUSDPrice_trace call_body_trace)
next
  show "count_list (snd (callFetchUSDPrice w)) (Console Fetching_latest_price_data) = 1"
    by (simp add: callFetchUSDPrice_trace call_body_trace fetch_announced_once
        split: sum.splits)
qed

lemma fair_calls:
  "Call_getUpdateFee [''0x504e4155''] \<in> set (snd (callFetchUSDPrice fair_world))"
  "Call_fetchUSDPrice [''0x504e4155''] 1 500000 \<in> set (snd (callFetchUSDPrice fair_world))"
  using fair_fetch
  by (simp_all add: callFetchUSDPrice_trace call_body_trace fair_world_def)

theorem payload_is_the_one_just_fetched_witness:
  "Call_getUpdateFee [''0x504e4155''] \<in> set (snd (callFetchUSDPrice fair_world)) \<and>
   Call_fetchUSDPrice [''0x504e4155''] 1 500000 \<in> set (snd (callFetchUSDPrice fair_world)) \<and>
   fst (getPriceUpdateData fair_world) = Inr [''0x504e4155'']"
  using payload_is_the_one_just_fetched
    [of "[''0x504e4155'']" fair_world "[''0x504e4155'']" 1 500000] fair_calls
  by blast

section \<open>Failure of the contract call\<close>

lemma str_includes_sublist: "str_includes s sub \<longleftrightarrow> sublist sub s"
  by (induction s) (simp_all add: sublist_Cons_right)

lemma refusing_fetch: "fst (getPriceUpdateData refusing_world) = Inr [''0x504e4155'']"
  by (simp add: getPriceUpdateData_def primary_body_def make_updateData_def io_fs2
      refusing_world_def fair_world_def sample_feed_def)

lemma refusing_call_body:
  "fst (call_body refusing_world) = Inl (Error ''execution reverted: insufficient funds'')"
  using refusing_fetch
  by (simp add: call_body_def io_fs refusing_world_def fair_world_def)

lemma includes_reverted:
  "str_includes ''execution reverted: insufficient funds'' ''execution reverted''"
  by simp

lemma includes_funds:
  "str_includes ''execution reverted: insufficient funds'' ''insufficient funds''"
  by simp

text \<open>
  C6, as stated, fails where the message names both patterns: only the first hint is
  printed, since the second test is the \<^verbatim>\<open>else\<close> branch of the first.
\<close>

theorem reverted_hint_missing_counterexample:
  "fst (call_body refusing_world) = Inl (Error ''execution reverted: insufficient funds'') \<and>
   str_includes ''execution reverted: insufficient funds'' ''execution reverted'' \<and>
   Console Tip_call_failed \<notin> set (snd (callFetchUSDPrice refusing_world))"
proof -
  have "Console Tip_call_failed \<notin> set (snd (call_body refusing_world))"
    using refusing_fetch
    by (simp add: call_body_trace getPriceUpdateData_trace primary_body_def
        make_updateData_def io_fs refusing_world_def fair_world_def sample_feed_def)
  then show ?thesis
    using refusing_call_body
    by (simp add: callFetchUSDPrice_trace)
qed

text \<open>
  C6, amended. When the \<^verbatim>\<open>try\<close> block of \<^verbatim>\<open>callFetchUSDPrice\<close> fails with an error, the
  same error is re-raised, and what is printed after the effects of the block is the
  error line followed by at most one hint: the insufficient-funds hint when the message
  contains \<^verbatim>\<open>insufficient funds\<close>; otherwise the execution-reverted hint when it contains
  \<^verbatim>\<open>execution reverted\<close>; otherwise none.
\<close>

theorem failure_hint_then_rethrow:
  assumes "fst (call_body w) = Inl e"
  shows "fst (callFetchUSDPrice w) = Inl e \<and>
    snd (callFetchUSDPrice w) =
      Console Calling_fetchUSDPrice # snd (call_body w) @
      Console (Error_calling_contract_method (message e)) #
      (if str_includes (message e) ''insufficient funds'' then [Console Tip_more_ETH]
       else if str_includes (message e) ''execution reverted'' then [Console Tip_call_failed]
       else [])"
  using assms
  by (simp add: callFetchUSDPrice_trace callFetchUSDPrice_def io_fs)

lemma broke_fetch: "fst (getPriceUpdateData broke_world) = Inr [''0x504e4155'']"
  by (simp add: getPriceUpdateData_def primary_body_def make_updateData_def io_fs2
      broke_world_def fair_world_def sample_feed_def)

lemma broke_call_body:
  "fst (call_body broke_world) = Inl (Error ''insufficient funds for gas * price + value'')"
  using broke_fetch
  by (simp add: call_body_def io_fs broke_world_def fair_world_def)

theorem failure_hint_then_rethrow_witness:
  "fst (call_body broke_world) = Inl (Error ''insufficient funds for gas * price + value'') \<and>
   fst (callFetchUSDPrice broke_world) =
     Inl (Error ''insufficient funds for gas * price + value'') \<and>
   last (snd (callFetchUSDPrice broke_world)) = Console Tip_more_ETH"
  using failure_hint_then_rethrow [OF broke_call_body] broke_call_body
  by simp

section \<open>The balance check\<close>

lemma low_balance_iff: "formatEther b < 1 / 100 \<longleftrightarrow> b < 10 ^ 16"
proof -
  have "formatEther b < 1 / 100 \<longleftrightarrow> (of_nat b :: rat) * 100 < 10 ^ 18"
    by (simp add: formatEther_def field_simps)
  also have "\<dots> \<longleftrightarrow> (of_nat (b * 100) :: rat) < of_nat (10 ^ 18)"
    by simp
  also have "\<dots> \<longleftrightarrow> b * 100 < 10 ^ 18"
    by (rule of_nat_less_iff)
  also have "\<dots> \<longleftrightarrow> b < 10 ^ 16"
    by simp
  finally show ?thesis .
qed

lemma low_balance_iff_mult: "formatEther b * 100 < 1 \<longleftrightarrow> b < 10 ^ 16"
  using low_balance_iff [of b] by simp

text \<open>
  The test as the script makes it, on doubles, has the same outcome: the double nearest
  to 0.01 is \<open>5764607523034235 / 2\<^sup>5\<^sup>9\<close>, the largest balance below 0.01 ether
  rounds to the double before it, and rounding keeps the order.
\<close>

lemma hundredth: "round_double (1 / 100) = Num (5764607523034235 / 2 ^ 59)"
proof -
  have "round_double (1 / 100) =
      Num (sgn (1 / 100) * of_int 5764607523034235 * 2 powi (- 7 - 52))"
    by (rule round_double_value; (rule rne_unique)?; simp add: power_int_minus)
  then show ?thesis
    by (simp add: power_int_minus)
qed

lemma below_hundredth:
  "round_double ((10 ^ 16 - 1) / 10 ^ 18) = Num (5764607523034234 / 2 ^ 59)"
proof -
  have "round_double ((10 ^ 16 - 1) / 10 ^ 18) =
      Num (sgn ((10 ^ 16 - 1) / 10 ^ 18) * of_int 5764607523034234 * 2 powi (- 7 - 52))"
    by (rule round_double_value; (rule rne_unique)?; simp add: power_int_minus)
  then show ?thesis
    by (simp add: power_int_minus)
qed

lemma low_balance_double:
  "js_less (parseFloat (formatEther b)) (round_double (1 / 100)) \<longleftrightarrow> b < 10 ^ 16"
proof (cases "b < 10 ^ 16")
  case True
  show ?thesis
  proof (cases "b = 0")
    case True
    moreover have "round_double 0 = Num 0"
      by (simp add: round_double_def)
    ultimately show ?thesis
      by (simp add: parseFloat_def formatEther_def hundredth)
  next
    case False
    then have pos: "0 < formatEther b"
      by (simp add: formatEther_def)
    have "b + 1 \<le> 10 ^ 16"
      using True by simp
    then have "(of_nat (b + 1) :: rat) \<le> of_nat (10 ^ 16)"
      by (simp only: of_nat_le_iff)
    then have "formatEther b \<le> (10 ^ 16 - 1) / 10 ^ 18"
      by (simp add: formatEther_def divide_right_mono)
    moreover have "((10 ^ 16 - 1) / 10 ^ 18 :: rat) < 2 ^ 1024 - 2 ^ 970"
      by simp
    ultimately obtain r where "round_double (formatEther b) = Num r"
      and "r \<le> 5764607523034234 / 2 ^ 59"
      using round_double_mono [OF pos, of "(10 ^ 16 - 1) / 10 ^ 18"] below_hundredth
      by auto
    then show ?thesis
      using True by (simp add: parseFloat_def hundredth)
  qed
next
  case False
  then have "(of_nat (10 ^ 16) :: rat) \<le> of_nat b"
    by (simp only: of_nat_le_iff)
  then have ge: "1 / 100 \<le> formatEther b"
    by (simp add: formatEther_def field_simps)
  show ?thesis
  proof (cases "formatEther b < 2 ^ 1024 - 2 ^ 970")
    case True
    with ge obtain s where "round_double (formatEther b) = Num s"
      and "5764607523034235 / 2 ^ 59 \<le> s"
      using round_double_mono [of "1 / 100" "formatEther b"] hundredth by auto
    then show ?thesis
      using False by (simp add: parseFloat_def hundredth)
  next
    case big: False
    with ge have "round_double (formatEther b) = PosInfinity"
      by (auto simp add: round_double_def)
    then show ?thesis
      using False by (simp add: parseFloat_def hundredth)
  qed
qed

lemma checkBalance_result:
  "fst (checkBalance this w) = getBalance w (SEPOLIA_RPC_URL w) (wallet_address this)"
  by (simp add: checkBalance_def io_fs split: sum.splits)

lemma checkBalance_trace:
  "snd (checkBalance this w) =
     [Console Checking_wallet_balance,
      Call_getBalance (SEPOLIA_RPC_URL w) (wallet_address this)] @
     (case getBalance w (SEPOLIA_RPC_URL w) (wallet_address this) of
        Inl e \<Rightarrow> []
      | Inr b \<Rightarrow>
          Console (Wallet_balance b) #
          (if b < 10 ^ 16 then [Console Warning_low_balance] else []))"
  by (simp add: checkBalance_def io_fs low_balance_double split: sum.splits)

lemma main_body_trace:
  "snd (main_body w) =
     snd (constructor w) @
     (case fst (constructor w) of
        Inl e \<Rightarrow> []
      | Inr this \<Rightarrow>
          snd (checkBalance this w) @
          (case fst (checkBalance this w) of
             Inl e \<Rightarrow> []
           | Inr b \<Rightarrow>
               snd (callFetchUSDPrice w) @
               (case fst (callFetchUSDPrice w) of
                  Inl e \<Rightarrow> []
                | Inr r \<Rightarrow>
                    Console Would_you_like_to_monitor # snd (monitorPrices 30000 w) @
                    (case fst (monitorPrices 30000 w) of
                       Inl e \<Rightarrow> []
                     | Inr m \<Rightarrow> [Console Script_completed]))))"
  by (simp add: main_body_def io_fs split: sum.splits)

text \<open>
  C7. When the provider answers a balance \<open>b\<close> (in wei), \<^verbatim>\<open>checkBalance\<close> returns \<open>b\<close>
  and throws nothing; it prints the low-balance warning, last, exactly when \<open>b\<close> is
  below 0.01 ether, that is \<open>10\<^sup>1\<^sup>6\<close> wei; and in \<^verbatim>\<open>main\<close> the contract call follows the
  balance check whatever the balance is.
\<close>

theorem low_balance_warns_and_goes_on:
  assumes "fst (constructor w) = Inr this"
    and "getBalance w (SEPOLIA_RPC_URL w) (wallet_address this) = Inr b"
  shows "fst (checkBalance this w) = Inr b \<and>
    snd (checkBalance this w) =
      [Console Checking_wallet_balance,
       Call_getBalance (SEPOLIA_RPC_URL w) (wallet_address this),
       Console (Wallet_balance b)] @
      (if formatEther b < 1 / 100 then [Console Warning_low_balance] else []) \<and>
    (Console Warning_low_balance \<in> set (snd (checkBalance this w)) \<longleftrightarrow> b < 10 ^ 16) \<and>
    prefix (snd (constructor w) @ snd (checkBalance this w) @ snd (callFetchUSDPrice w))
      (snd (main_body w))"
  using assms
  by (simp add: checkBalance_result checkBalance_trace main_body_trace low_balance_iff_mult)

lemma fair_constructor: "fst (constructor fair_world) = Inr \<lparr>wallet_address = ''0xWallet''\<rparr>"
  by (simp add: constructor_def io_fs fair_world_def)

lemma fair_balance:
  "getBalance fair_world (SEPOLIA_RPC_URL fair_world)
     (wallet_address \<lparr>wallet_address = ''0xWallet''\<rparr>) = Inr 5000000000000000"
  by (simp add: fair_world_def)

theorem low_balance_warns_and_goes_on_witness:
  "fst (constructor fair_world) = Inr \<lparr>wallet_address = ''0xWallet''\<rparr> \<and>
   fst (checkBalance \<lparr>wallet_address = ''0xWallet''\<rparr> fair_world) = Inr 5000000000000000 \<and>
   Console Warning_low_balance \<in>
     set (snd (checkBalance \<lparr>wallet_address = ''0xWallet''\<rparr> fair_world)) \<and>
   prefix (snd (constructor fair_world) @
       snd (checkBalance \<lparr>wallet_address = ''0xWallet''\<rparr> fair_world) @
       snd (callFetchUSDPrice fair_world))
     (snd (main_body fair_world))"
proof -
  note checked = low_balance_warns_and_goes_on [OF fair_constructor fair_balance]
  have "fst (checkBalance \<lparr>wallet_address = ''0xWallet''\<rparr> fair_world) = Inr 5000000000000000"
    using checked [THEN conjunct1] .
  moreover have "Console Warning_low_balance \<in>
     set (snd (checkBalance \<lparr>wallet_address = ''0xWallet''\<rparr> fair_world))"
    using checked [THEN conjunct2, THEN conjunct2, THEN conjunct1] by simp
  moreover have "prefix (snd (constructor fair_world) @
       snd (checkBalance \<lparr>wallet_address = ''0xWallet''\<rparr> fair_world) @
       snd (callFetchUSDPrice fair_world))
     (snd (main_body fair_world))"
    using checked [THEN conjunct2, THEN conjunct2, THEN conjunct2] .
  ultimately show ?thesis
    using fair_constructor by blast
qed

section \<open>Validation of the configuration\<close>

lemma constructor_trace:
  "snd (constructor w) =
     Call_new_Wallet #
     (case new_Wallet w (PRIVATE_KEY w) of
        Inl e \<Rightarrow> []
      | Inr a \<Rightarrow>
          [Console Script_initialized, Console (Wallet_address a),
           Console (Contract_address (YOUR_CONTRACT_ADDRESS w))])"
  by (simp add: constructor_def io_fs split: sum.splits)

lemma main_body_starts: "Call_new_Wallet \<in> set (snd (main_body w))"
  by (simp add: main_body_trace constructor_trace)

lemma placeholder_address:
  "YOUR_CONTRACT_ADDRESS w = ''0x...'' \<longleftrightarrow>
     env_CONTRACT_ADDRESS w \<in> {None, Some [], Some ''0x...''}"
  by (auto simp add: YOUR_CONTRACT_ADDRESS_def or_default_def split: option.splits)

lemma main_validated:
  assumes "env_PRIVATE_KEY w \<notin> {None, Some []}"
    and "env_CONTRACT_ADDRESS w \<notin> {None, Some [], Some ''0x...''}"
  shows "main w =
    (case fst (main_body w) of
       Inl e \<Rightarrow>
         (Exit 1, banner @ snd (main_body w) @ [Console (Script_failed (message e))])
     | Inr m \<Rightarrow> (Returned m, banner @ snd (main_body w)))"
  using assms placeholder_address [of w]
  by (cases "main_body w") (auto simp add: main_def PRIVATE_KEY_def split: sum.splits)

lemma no_rpc_env:
  "env_PRIVATE_KEY no_rpc_world \<notin> {None, Some []}"
  "env_CONTRACT_ADDRESS no_rpc_world \<notin> {None, Some [], Some ''0x...''}"
  "env_SEPOLIA_RPC_URL no_rpc_world = None"
  "SEPOLIA_RPC_URL no_rpc_world = PLACEHOLDER_RPC_URL"
  by (simp_all add: no_rpc_world_def fair_world_def SEPOLIA_RPC_URL_def or_default_def)

lemma no_rpc_steps:
  "fst (constructor no_rpc_world) = Inr \<lparr>wallet_address = ''0xWallet''\<rparr>"
  "fst (checkBalance \<lparr>wallet_address = ''0xWallet''\<rparr> no_rpc_world) = Inr 5000000000000000"
  "fst (getPriceUpdateData no_rpc_world) = Inr [''0x504e4155'']"
  "fst (monitorPrices 30000 no_rpc_world) = Inr (setTimeout Report_stopped (new_monitor\<lparr>subscribed := True\<rparr>))"
  by (simp_all add: constructor_def checkBalance_result getPriceUpdateData_def
      primary_body_def make_updateData_def monitorPrices_def io_fs2
      no_rpc_world_def fair_world_def sample_feed_def)

lemma no_rpc_call: "fst (callFetchUSDPrice no_rpc_world) = Inr sample_receipt"
  using no_rpc_steps(3)
  by (simp add: callFetchUSDPrice_def call_body_def io_fs no_rpc_world_def fair_world_def)

lemma no_rpc_main_body:
  "fst (main_body no_rpc_world) = Inr (setTimeout Report_stopped (new_monitor\<lparr>subscribed := True\<rparr>))"
  using no_rpc_steps no_rpc_call
  by (simp add: main_body_def io_fs)

text \<open>
  C8, as stated, fails for the RPC endpoint: with no endpoint configured the script
  takes the placeholder URL, passes validation, asks that URL for the balance and, the
  provider answering, completes without exiting.
\<close>

theorem rpc_url_not_validated_counterexample:
  "env_SEPOLIA_RPC_URL no_rpc_world = None \<and>
   SEPOLIA_RPC_URL no_rpc_world = PLACEHOLDER_RPC_URL \<and>
   Call_getBalance PLACEHOLDER_RPC_URL ''0xWallet'' \<in> set (snd (main no_rpc_world)) \<and>
   Console Script_completed \<in> set (snd (main no_rpc_world)) \<and>
   fst (main no_rpc_world) \<noteq> Exit 1"
proof -
  have m: "main no_rpc_world =
      (Returned (setTimeout Report_stopped (new_monitor\<lparr>subscribed := True\<rparr>)),
       banner @ snd (main_body no_rpc_world))"
    using main_validated [OF no_rpc_env(1,2)] no_rpc_main_body by simp
  have "Call_getBalance PLACEHOLDER_RPC_URL ''0xWallet'' \<in> set (snd (main_body no_rpc_world))"
    using no_rpc_steps(1) no_rpc_env(4)
    by (simp add: main_body_trace checkBalance_trace)
  moreover have "Console Script_completed \<in> set (snd (main_body no_rpc_world))"
    using no_rpc_steps no_rpc_call
    by (simp add: main_body_trace)
  ultimately show ?thesis
    using no_rpc_env(3,4) by (simp add: m)
qed

text \<open>
  C8, amended. \<^verbatim>\<open>main\<close> validates the wallet private key (set and non-empty) and the
  target contract address (set, non-empty and not the placeholder \<^verbatim>\<open>0x...\<close>), and nothing
  else: it goes on to build the wallet exactly when both are present. It exits with
  code 1, having printed only the two banner lines and one error line, when the key is
  missing, or else when the address is; it exits with code 1 when the workflow that
  follows fails; and otherwise it returns without exiting.
\<close>

theorem main_validates_key_and_address:
  "(Call_new_Wallet \<in> set (snd (main w)) \<longleftrightarrow>
      env_PRIVATE_KEY w \<notin> {None, Some []} \<and>
      env_CONTRACT_ADDRESS w \<notin> {None, Some [], Some ''0x...''}) \<and>
   (env_PRIVATE_KEY w \<in> {None, Some []} \<longrightarrow>
      main w = (Exit 1, banner @ [Console Error_set_PRIVATE_KEY])) \<and>
   (env_PRIVATE_KEY w \<notin> {None, Some []} \<and>
    env_CONTRACT_ADDRESS w \<in> {None, Some [], Some ''0x...''} \<longrightarrow>
      main w = (Exit 1, banner @ [Console Error_set_CONTRACT_ADDRESS])) \<and>
   (env_PRIVATE_KEY w \<notin> {None, Some []} \<and>
    env_CONTRACT_ADDRESS w \<notin> {None, Some [], Some ''0x...''} \<longrightarrow>
      (case fst (main_body w) of
         Inl e \<Rightarrow>
           fst (main w) = Exit 1 \<and> last (snd (main w)) = Console (Script_failed (message e))
       | Inr m \<Rightarrow> fst (main w) = Returned m))"
proof (intro conjI impI)
  show "Call_new_Wallet \<in> set (snd (main w)) \<longleftrightarrow>
      env_PRIVATE_KEY w \<notin> {None, Some []} \<and>
      env_CONTRACT_ADDRESS w \<notin> {None, Some [], Some ''0x...''}"
  proof (cases "env_PRIVATE_KEY w \<notin> {None, Some []} \<and>
      env_CONTRACT_ADDRESS w \<notin> {None, Some [], Some ''0x...''}")
    case True
    then show ?thesis
      using main_validated [of w] main_body_starts [of w]
      by (simp add: banner_def split: sum.splits)
  next
    case False
    then show ?thesis
      using placeholder_address [of w]
      by (auto simp add: main_def PRIVATE_KEY_def banner_def)
  qed
next
  assume "env_PRIVATE_KEY w \<in> {None, Some []}"
  then show "main w = (Exit 1, banner @ [Console Error_set_PRIVATE_KEY])"
    by (auto simp add: main_def PRIVATE_KEY_def)
next
  assume "env_PRIVATE_KEY w \<notin> {None, Some []} \<and>
    env_CONTRACT_ADDRESS w \<in> {None, Some [], Some ''0x...''}"
  then show "main w = (Exit 1, banner @ [Console Error_set_CONTRACT_ADDRESS])"
    using placeholder_address [of w]
    by (auto simp add: main_def PRIVATE_KEY_def)
next
  assume "env_PRIVATE_KEY w \<notin> {None, Some []} \<and>
    env_CONTRACT_ADDRESS w \<notin> {None, Some [], Some ''0x...''}"
  then show "case fst (main_body w) of
         Inl e \<Rightarrow>
           fst (main w) = Exit 1 \<and> last (snd (main w)) = Console (Script_failed (message e))
       | Inr m \<Rightarrow> fst (main w) = Returned m"
    using main_validated [of w]
    by (simp split: sum.splits)
qed

lemma fair_env:
  "env_PRIVATE_KEY fair_world \<notin> {None, Some []}"
  "env_CONTRACT_ADDRESS fair_world \<notin> {None, Some [], Some ''0x...''}"
  by (simp_all add: fair_world_def)

theorem main_validates_key_and_address_witness:
  "env_PRIVATE_KEY fair_world \<notin> {None, Some []} \<and>
   env_CONTRACT_ADDRESS fair_world \<notin> {None, Some [], Some ''0x...''} \<and>
   Call_new_Wallet \<in> set (snd (main fair_world)) \<and>
   env_PRIVATE_KEY (fair_world\<lparr>env_PRIVATE_KEY := Some []\<rparr>) \<in> {None, Some []} \<and>
   main (fair_world\<lparr>env_PRIVATE_KEY := Some []\<rparr>) =
     (Exit 1, banner @ [Console Error_set_PRIVATE_KEY]) \<and>
   env_CONTRACT_ADDRESS (fair_world\<lparr>env_CONTRACT_ADDRESS := None\<rparr>)
     \<in> {None, Some [], Some ''0x...''} \<and>
   main (fair_world\<lparr>env_CONTRACT_ADDRESS := None\<rparr>) =
     (Exit 1, banner @ [Console Error_set_CONTRACT_ADDRESS])"
proof -
  have "Call_new_Wallet \<in> set (snd (main fair_world))"
    using main_validates_key_and_address [of fair_world, THEN conjunct1] fair_env by blast
  moreover have "main (fair_world\<lparr>env_PRIVATE_KEY := Some []\<rparr>) =
     (Exit 1, banner @ [Console Error_set_PRIVATE_KEY])"
    using main_validates_key_and_address
      [of "fair_world\<lparr>env_PRIVATE_KEY := Some []\<rparr>", THEN conjunct2, THEN conjunct1]
    by simp
  moreover have "main (fair_world\<lparr>env_CONTRACT_ADDRESS := None\<rparr>) =
     (Exit 1, banner @ [Console Error_set_CONTRACT_ADDRESS])"
    using main_validates_key_and_address
      [of "fair_world\<lparr>env_CONTRACT_ADDRESS := None\<rparr>",
        THEN conjunct2, THEN conjunct2, THEN conjunct1]
    by (simp add: fair_world_def)
  ultimately show ?thesis
    using fair_env by simp
qed


section \<open>The decoded price\<close>

lemma fair_sample_readable:
  "readablePrice fair_world sample_price = Num (6597341250986276 / 2 ^ 41)"
proof -
  have "round_double (300012345678 * (6044629098073146 / 2 ^ 79)) =
      Num (sgn (300012345678 * (6044629098073146 / 2 ^ 79)) * of_int 6597341250986276 *
        2 powi (11 - 52))"
    by (rule round_double_value; (rule rne_unique)?; simp add: power_int_minus)
  then show ?thesis
    by (simp add: readablePrice_def sample_price_def fair_pow_minus8 Number_exact
        power_int_minus)
qed

lemma fair_rising_readable:
  "readablePrice fair_world (getPriceUnchecked rising_feed) = Num (6663314663500976 / 2 ^ 41)"
proof -
  have "round_double (303012469135 * (6044629098073146 / 2 ^ 79)) =
      Num (sgn (303012469135 * (6044629098073146 / 2 ^ 79)) * of_int 6663314663500976 *
        2 powi (11 - 52))"
    by (rule round_double_value; (rule rne_unique)?; simp add: power_int_minus)
  then show ?thesis
    by (simp add: readablePrice_def rising_feed_def fair_pow_minus8 Number_exact
        power_int_minus)
qed

lemma fair_odd_readable: "readablePrice fair_world odd_price = Num 9007199254740992"
proof -
  have "rne (\<bar>9007199254740993\<bar> / 2 powi (53 - 52)) = 4503599627370496"
    using rne_tie_even [of 4503599627370496] by simp
  then have "round_double 9007199254740993 =
      Num (sgn 9007199254740993 * of_int 4503599627370496 * 2 powi (53 - 52))"
    by (intro round_double_value) simp_all
  then have "Number 9007199254740993 = Num 9007199254740992"
    by (simp add: Number_def)
  moreover have "round_double (of_int 9007199254740992) = Num (of_int 9007199254740992)"
    by (rule round_double_int) simp
  ultimately show ?thesis
    by (simp add: readablePrice_def odd_price_def Math_pow10_def)
qed

lemma fair_huge_readable: "readablePrice fair_world (getPriceUnchecked huge_feed) = PosInfinity"
proof -
  have "round_double (10 ^ 400) = PosInfinity"
    by (simp add: round_double_def)
  moreover have "Number 1 = Num 1"
    using Number_exact [of 1] by simp
  ultimately show ?thesis
    by (simp add: readablePrice_def huge_feed_def Math_pow10_def fair_world_def infinity_def)
qed


lemma primary_prints_decoded:
  assumes "getLatestPriceFeeds w = Inr (Some (feed # rest))"
  shows "Console (Current_price (toFixed2 (readablePrice w (getPriceUnchecked feed))))
    \<in> set (snd (primary_body w))"
  using assms by (simp add: primary_body_def io_fs)

lemma rest_prints_decoded:
  assumes "fetch_latest_price_feeds w LATEST_PRICE_FEEDS_URL = Inr response"
    and "ok response" and "json response = Inr (Some (Some priceData # rest))"
  shows "Console (Current_price (toFixed2 (readablePrice w priceData)))
    \<in> set (snd (getPriceUpdateDataViaRest w))"
  using assms by (simp add: getPriceUpdateDataViaRest_def rest_body_def io_fs)

text \<open>
  C4, as stated, fails for a price above \<open>2\<^sup>5\<^sup>3\<close>, which \<^verbatim>\<open>Number\<close> rounds: with the
  price \<open>2\<^sup>5\<^sup>3 + 1\<close> and the exponent 0 the decoded price is \<open>2\<^sup>5\<^sup>3\<close>, off by 1.
\<close>

theorem decoded_price_rounds_counterexample:
  "price odd_price = 9007199254740993 \<and> expo odd_price = 0 \<and>
   readablePrice fair_world odd_price = Num 9007199254740992 \<and>
   1 / 10 ^ 9 < \<bar>9007199254740992 - of_int (price odd_price) * 10 powi expo odd_price :: rat\<bar>"
  using fair_odd_readable by (simp add: odd_price_def)

text \<open>
  C4, amended. The decoded price, which both paths compute by the same expression and
  print, is within \<open>10\<^sup>-\<^sup>9\<close> of the price times ten to the power of its exponent whenever
  the price is at most \<open>2\<^sup>5\<^sup>3\<close> in magnitude, that product is at most 4000000 in
  magnitude, and what \<^verbatim>\<open>Math.pow\<close> answers is within a relative error of \<open>2\<^sup>-\<^sup>5\<^sup>3\<close> of the
  power, as its nearest double is.
\<close>

theorem decoded_price_within_tolerance:
  assumes "\<bar>price p\<bar> \<le> 2 ^ 53"
    and "Math_pow10 w (expo p) = Num P"
    and "\<bar>P - 10 powi expo p\<bar> \<le> 10 powi expo p / 2 ^ 53"
    and "\<bar>of_int (price p) * 10 powi expo p :: rat\<bar> \<le> 4000000"
  shows "\<exists>d. readablePrice w p = Num d \<and>
    \<bar>d - of_int (price p) * 10 powi expo p\<bar> \<le> 1 / 10 ^ 9"
proof -
  define n :: rat where "n = of_int (price p)"
  define T :: rat where "T = 10 powi expo p"
  define v where "v = n * T"
  define y where "y = n * P"
  have T: "0 < T" by (simp add: T_def)
  have v: "\<bar>v\<bar> \<le> 4000000"
    using assms(4) by (simp add: v_def n_def T_def)
  have "\<bar>y - v\<bar> = \<bar>n\<bar> * \<bar>P - T\<bar>"
    by (simp add: y_def v_def abs_mult [symmetric] algebra_simps)
  also have "\<dots> \<le> \<bar>n\<bar> * (T / 2 ^ 53)"
    using assms(3) by (intro mult_left_mono) (simp_all add: T_def)
  also have "\<dots> = \<bar>v\<bar> / 2 ^ 53"
    using T by (simp add: v_def abs_mult)
  finally have yv: "\<bar>y - v\<bar> \<le> \<bar>v\<bar> / 2 ^ 53" .
  then have y: "\<bar>y\<bar> \<le> \<bar>v\<bar> + \<bar>v\<bar> / 2 ^ 53"
    by linarith
  with v have "\<bar>y\<bar> \<le> 4000000 + 4000000 / 2 ^ 53"
    by (simp add: field_simps)
  moreover have "(4000000 + 4000000 / 2 ^ 53 :: rat) < 2 ^ 1024 - 2 ^ 970"
    by simp
  ultimately have "\<bar>y\<bar> < 2 ^ 1024 - 2 ^ 970"
    by linarith
  from round_double_error [OF this] obtain d
    where d: "round_double y = Num d" "\<bar>d - y\<bar> \<le> \<bar>y\<bar> / 2 ^ 53 + 1 / 2 ^ 1075"
    by blast
  have "readablePrice w p = Num d"
    using assms(1,2) d(1) by (simp add: readablePrice_def Number_exact y_def n_def)
  moreover have "\<bar>d - v\<bar> \<le> 1 / 10 ^ 9"
  proof -
    have "\<bar>d - v\<bar> \<le> \<bar>d - y\<bar> + \<bar>y - v\<bar>"
      by linarith
    also have "\<dots> \<le> (\<bar>v\<bar> + \<bar>v\<bar> / 2 ^ 53) / 2 ^ 53 + 1 / 2 ^ 1075 + \<bar>v\<bar> / 2 ^ 53"
      using d(2) y yv by (simp add: field_simps)
    also have "\<dots> = \<bar>v\<bar> * (2 / 2 ^ 53 + 1 / 2 ^ 106) + 1 / 2 ^ 1075"
      by (simp add: field_simps)
    also have "\<dots> \<le> 4000000 * (2 / 2 ^ 53 + 1 / 2 ^ 106) + 1 / 2 ^ 1075"
      using v by (intro add_right_mono mult_right_mono) simp_all
    also have "\<dots> \<le> 1 / 10 ^ 9"
      by simp
    finally show ?thesis .
  qed
  ultimately show ?thesis
    by (auto simp add: v_def n_def T_def)
qed

theorem decoded_price_within_tolerance_witness:
  "\<bar>price sample_price\<bar> \<le> 2 ^ 53 \<and>
   Math_pow10 fair_world (expo sample_price) = Num (6044629098073146 / 2 ^ 79) \<and>
   \<bar>6044629098073146 / 2 ^ 79 - 10 powi expo sample_price :: rat\<bar>
     \<le> 10 powi expo sample_price / 2 ^ 53 \<and>
   \<bar>of_int (price sample_price) * 10 powi expo sample_price :: rat\<bar> \<le> 4000000 \<and>
   readablePrice fair_world sample_price = Num (6597341250986276 / 2 ^ 41) \<and>
   \<bar>6597341250986276 / 2 ^ 41 - of_int (price sample_price) * 10 powi expo sample_price :: rat\<bar>
     \<le> 1 / 10 ^ 9"
proof -
  have h1: "\<bar>price sample_price\<bar> \<le> 2 ^ 53"
    by (simp add: sample_price_def)
  have h2: "Math_pow10 fair_world (expo sample_price) = Num (6044629098073146 / 2 ^ 79)"
    using fair_pow_minus8 by (simp add: sample_price_def)
  have h3: "\<bar>6044629098073146 / 2 ^ 79 - 10 powi expo sample_price :: rat\<bar>
     \<le> 10 powi expo sample_price / 2 ^ 53"
    by (simp add: sample_price_def power_int_minus)
  have h4: "\<bar>of_int (price sample_price) * 10 powi expo sample_price :: rat\<bar> \<le> 4000000"
    by (simp add: sample_price_def power_int_minus)
  from decoded_price_within_tolerance [OF h1 h2 h3 h4]
  have "\<bar>6597341250986276 / 2 ^ 41 - of_int (price sample_price) *
      10 powi expo sample_price :: rat\<bar> \<le> 1 / 10 ^ 9"
    unfolding fair_sample_readable by blast
  then show ?thesis
    using h1 h2 h3 h4 fair_sample_readable by blast
qed


section \<open>The monitor\<close>

lemma toFixed2_NaN_iff: "toFixed2 z = TextNaN \<longleftrightarrow> z = NaN"
  by (cases z) simp_all

lemma toFixed2_Num: "is_number_text (toFixed2 (Num x))"
  by simp

lemma Number_100: "Number 100 = Num 100"
  using Number_exact [of 100] by simp

lemma js_minus_finite: "js_minus (Num b) (Num a) \<noteq> NaN"
  by (simp add: round_double_not_NaN)

lemma js_div_not_NaN: "x \<noteq> NaN \<Longrightarrow> a \<noteq> 0 \<Longrightarrow> js_div x (Num a) \<noteq> NaN"
  by (cases x) (simp_all add: round_double_not_NaN infinity_def)

lemma js_times_100_not_NaN: "x \<noteq> NaN \<Longrightarrow> js_times x (Num 100) \<noteq> NaN"
  by (cases x) (simp_all add: round_double_not_NaN infinity_def)

lemma change_since_falsy: "\<not> truthy previous \<Longrightarrow> change_since previous readable = Literal_zero"
  by (simp add: change_since_def)

lemma change_since_guard:
  "change_since previous readable \<noteq> Literal_zero \<Longrightarrow> previous \<noteq> Num 0 \<and> previous \<noteq> NaN"
  by (auto simp add: change_since_def)

lemma change_since_not_NaN:
  assumes "is_finite previous" and "is_finite readable"
  shows "change_since previous readable \<noteq> Text TextNaN"
proof -
  from assms obtain a b where ab: "previous = Num a" "readable = Num b"
    by (cases previous; cases readable) simp_all
  show ?thesis
  proof (cases "a = 0")
    case True
    then show ?thesis by (simp add: ab change_since_def)
  next
    case False
    have "js_times (js_div (js_minus (Num b) (Num a)) (Num a)) (Num 100) \<noteq> NaN"
      using False by (intro js_times_100_not_NaN js_div_not_NaN js_minus_finite)
    then show ?thesis
      using False by (simp add: ab change_since_def Number_100 toFixed2_NaN_iff)
  qed
qed

lemma change_since_moderate:
  assumes "is_moderate previous" and "is_moderate readable"
  shows "is_number_change (change_since previous readable)"
proof -
  from assms obtain a b where ab: "previous = Num a" "readable = Num b"
    by (cases previous; cases readable) simp_all
  show ?thesis
  proof (cases "a = 0")
    case True
    then show ?thesis by (simp add: ab change_since_def)
  next
    case False
    with assms have a: "2 powi (- 500) \<le> \<bar>a\<bar>" "\<bar>a\<bar> \<le> 2 powi 500" and b: "\<bar>b\<bar> \<le> 2 powi 500"
      by (auto simp add: ab)
    have "\<bar>b - a\<bar> \<le> 2 powi 500 + 2 powi 500"
      using a(2) b by linarith
    also have "\<dots> = 2 powi 501"
      by simp
    finally obtain d where d: "round_double (b - a) = Num d" "\<bar>d\<bar> \<le> 2 powi 501"
      using round_double_bounded [of "b - a" 501] by auto
    have "\<bar>d / a\<bar> = \<bar>d\<bar> / \<bar>a\<bar>"
      by simp
    also have "\<dots> \<le> 2 powi 501 / 2 powi (- 500)"
      using d(2) a(1) by (intro frac_le) simp_all
    also have "\<dots> = 2 powi 1001"
      by (simp add: power_int_minus)
    finally obtain q where q: "round_double (d / a) = Num q" "\<bar>q\<bar> \<le> 2 powi 1001"
      using round_double_bounded [of "d / a" 1001] by auto
    have "\<bar>q * 100\<bar> \<le> 2 powi 1001 * 128"
      using q(2) by (simp add: abs_mult)
    also have "\<dots> = 2 powi 1008"
      by simp
    finally obtain c where c: "round_double (q * 100) = Num c"
      using round_double_bounded [of "q * 100" 1008] by auto
    show ?thesis
      using False d(1) q(1) c by (simp add: ab change_since_def Number_100)
  qed
qed

lemma show_price_effects:
  "effects (show_price w f m) =
     effects m @
     [Console (Price_line
        (arrow_of (change_since (lastPrice m) (readablePrice w (getPriceUnchecked f))))
        (toFixed2 (readablePrice w (getPriceUnchecked f)))
        (positive (change_since (lastPrice m) (readablePrice w (getPriceUnchecked f))))
        (change_since (lastPrice m) (readablePrice w (getPriceUnchecked f))))]"
  by (simp add: show_price_def print_def Let_def)

lemma show_price_fields:
  "lastPrice (show_price w f m) = readablePrice w (getPriceUnchecked f)"
  "priceCount (show_price w f m) = priceCount m + 1"
  "subscribed (show_price w f m) = subscribed m"
  "intervals (show_price w f m) = intervals m"
  "timeouts (show_price w f m) = timeouts m"
  "pending (show_price w f m) = pending m"
  by (simp_all add: show_price_def print_def Let_def)

lemma show_price_first:
  "\<not> truthy (lastPrice m) \<Longrightarrow>
     effects (show_price w f m) =
       effects m @
       [Console (Price_line Flat (toFixed2 (readablePrice w (getPriceUnchecked f)))
          False Literal_zero)]"
  by (simp add: show_price_effects change_since_falsy arrow_of_def)

text \<open>
  What holds of the previous price and of every line printed so far goes on holding, as
  long as it holds of each sampled price and of the line made from two such prices.
\<close>

lemma occur_keeps:
  assumes line: "\<And>l r. P l \<Longrightarrow> P r \<Longrightarrow>
      Q (Console (Price_line (arrow_of (change_since l r)) (toFixed2 r)
        (positive (change_since l r)) (change_since l r)))"
    and other: "\<And>ev. \<not> is_price_line ev \<Longrightarrow> Q ev"
    and m: "P (lastPrice m)" "\<forall>ev \<in> set (effects m). Q ev"
    and x: "\<forall>f \<in> set (sampled x). P (readablePrice w (getPriceUnchecked f))"
  shows "P (lastPrice (occur w x m)) \<and> (\<forall>ev \<in> set (effects (occur w x m)). Q ev)"
proof -
  have shown: "P (lastPrice (show_price w f m')) \<and>
      (\<forall>ev \<in> set (effects (show_price w f m')). Q ev)"
    if "P (readablePrice w (getPriceUnchecked f))" "lastPrice m' = lastPrice m"
      "effects m' = effects m" for f m'
    using that m line [of "lastPrice m" "readablePrice w (getPriceUnchecked f)"]
    by (simp add: show_price_effects show_price_fields)
  show ?thesis
  proof (cases x)
    case (Update_pushed f)
    then show ?thesis
      using m x shown [of f m] by (cases "subscribed m") simp_all
  next
    case (Interval_due i)
    then show ?thesis
      using m other [of "Call_getLatestPriceFeeds [ETH_USD_PRICE_ID]"] by simp
  next
    case (Poll_settles answer)
    show ?thesis
    proof (cases "0 < pending m")
      case False
      then show ?thesis using m by (simp add: Poll_settles)
    next
      case True
      show ?thesis
      proof (cases answer)
        case (Inl e)
        then show ?thesis
          using True m other [of "Console (Error_fetching_price (message e))"]
          by (simp add: Poll_settles poll_settled_def print_def)
      next
        case (Inr feeds)
        show ?thesis
        proof (cases feeds)
          case None
          then show ?thesis
            using True m by (simp add: Poll_settles Inr poll_settled_def)
        next
          case (Some fs)
          show ?thesis
          proof (cases fs)
            case Nil
            then show ?thesis
              using True m by (simp add: Poll_settles Inr Some poll_settled_def)
          next
            case (Cons f rest)
            then show ?thesis
              using True x shown [of f "m\<lparr>pending := pending m - 1\<rparr>"]
              by (simp add: Poll_settles Inr Some poll_settled_def)
          qed
        qed
      qed
    qed
  next
    case (Timeout_due i)
    show ?thesis
    proof (cases "map_of (timeouts m) i")
      case None
      then show ?thesis using m by (simp add: Timeout_due)
    next
      case (Some cb)
      then show ?thesis
        using m other [of "Call_clearInterval j" for j]
          other [of "Console (Monitoring_stopped (priceCount m))"]
        by (cases cb) (simp_all add: Timeout_due print_def clearInterval_def)
    qed
  qed
qed

lemma event_loop_keeps:
  assumes line: "\<And>l r. P l \<Longrightarrow> P r \<Longrightarrow>
      Q (Console (Price_line (arrow_of (change_since l r)) (toFixed2 r)
        (positive (change_since l r)) (change_since l r)))"
    and other: "\<And>ev. \<not> is_price_line ev \<Longrightarrow> Q ev"
    and m: "P (lastPrice m)" "\<forall>ev \<in> set (effects m). Q ev"
    and occs: "\<forall>f \<in> set (concat (map sampled occs)). P (readablePrice w (getPriceUnchecked f))"
  shows "\<forall>ev \<in> set (effects (event_loop w occs m)). Q ev"
  using m occs
proof (induction occs arbitrary: m)
  case Nil
  then show ?case by simp
next
  case (Cons x occs)
  have "P (lastPrice (occur w x m)) \<and> (\<forall>ev \<in> set (effects (occur w x m)). Q ev)"
    using Cons.prems by (intro occur_keeps [of P Q] line other) simp_all
  then show ?case
    using Cons.IH [of "occur w x m"] Cons.prems(3) by simp
qed


lemma monitorPrices_result:
  assumes "fst (monitorPrices duration w) = Inr m0"
  shows "m0 = setTimeout Report_stopped (new_monitor\<lparr>subscribed := True\<rparr>) \<or>
         m0 = setTimeout Report_stopped
                (setTimeout (Clear_interval 1) (snd (setInterval new_monitor)))"
  using assms
  by (auto simp add: monitorPrices_def io_fs setInterval_def new_monitor_def
      split: option.splits sum.splits prod.splits)

lemma monitorPrices_fresh:
  assumes "fst (monitorPrices duration w) = Inr m0"
  shows "lastPrice m0 = Num 0 \<and> priceCount m0 = 0 \<and> effects m0 = [] \<and> pending m0 = 0"
  using monitorPrices_result [OF assms]
  by (auto simp add: setTimeout_def setInterval_def new_monitor_def)

lemma occur_first_line:
  assumes "(filter is_price_line (effects m) = [] \<and> lastPrice m = Num 0) \<or>
     (\<exists>p rest. filter is_price_line (effects m) =
        Console (Price_line Flat p False Literal_zero) # rest)"
  shows "(filter is_price_line (effects (occur w x m)) = [] \<and> lastPrice (occur w x m) = Num 0) \<or>
     (\<exists>p rest. filter is_price_line (effects (occur w x m)) =
        Console (Price_line Flat p False Literal_zero) # rest)"
proof -
  have shown: "\<And>f m'. effects m' = effects m \<Longrightarrow> lastPrice m' = lastPrice m \<Longrightarrow>
      \<exists>p rest. filter is_price_line (effects (show_price w f m')) =
        Console (Price_line Flat p False Literal_zero) # rest"
    using assms
    by (auto simp add: show_price_effects change_since_falsy arrow_of_def)
  show ?thesis
  proof (cases x)
    case (Update_pushed f)
    then show ?thesis
      using assms shown [of m f] by (cases "subscribed m") simp_all
  next
    case (Interval_due i)
    then show ?thesis using assms by simp
  next
    case (Poll_settles answer)
    show ?thesis
    proof (cases "0 < pending m")
      case False
      then show ?thesis using assms by (simp add: Poll_settles)
    next
      case True
      then show ?thesis
        using assms shown [of "m\<lparr>pending := pending m - 1\<rparr>"]
        by (simp add: Poll_settles poll_settled_def print_def
            split: sum.splits option.splits list.splits)
    qed
  next
    case (Timeout_due i)
    show ?thesis
    proof (cases "map_of (timeouts m) i")
      case None
      then show ?thesis using assms by (simp add: Timeout_due)
    next
      case (Some cb)
      then show ?thesis
        using assms by (cases cb) (simp_all add: Timeout_due print_def clearInterval_def)
    qed
  qed
qed

lemma event_loop_first_line:
  assumes "(filter is_price_line (effects m) = [] \<and> lastPrice m = Num 0) \<or>
     (\<exists>p rest. filter is_price_line (effects m) =
        Console (Price_line Flat p False Literal_zero) # rest)"
  shows "(filter is_price_line (effects (event_loop w occs m)) = [] \<and>
      lastPrice (event_loop w occs m) = Num 0) \<or>
     (\<exists>p rest. filter is_price_line (effects (event_loop w occs m)) =
        Console (Price_line Flat p False Literal_zero) # rest)"
  using assms
proof (induction occs arbitrary: m)
  case Nil
  then show ?case by simp
next
  case (Cons x occs)
  show ?case
    using Cons.IH [OF occur_first_line [OF Cons.prems]] by simp
qed

lemma fair_monitor:
  "fst (monitorPrices 30000 fair_world) =
     Inr (setTimeout Report_stopped (new_monitor\<lparr>subscribed := True\<rparr>))"
  by (simp add: monitorPrices_def io_fs fair_world_def)

lemma subscribed_monitor:
  "lastPrice (setTimeout Report_stopped (new_monitor\<lparr>subscribed := True\<rparr>)) = Num 0"
  "subscribed (setTimeout Report_stopped (new_monitor\<lparr>subscribed := True\<rparr>))"
  "effects (setTimeout Report_stopped (new_monitor\<lparr>subscribed := True\<rparr>)) = []"
  "priceCount (setTimeout Report_stopped (new_monitor\<lparr>subscribed := True\<rparr>)) = 0"
  "timeouts (setTimeout Report_stopped (new_monitor\<lparr>subscribed := True\<rparr>)) =
    [(1, Report_stopped)]"
  by (simp_all add: setTimeout_def new_monitor_def)

text \<open>
  C10, as stated, fails for a price that overflows: with the exponent 400 the decoded
  price is \<^verbatim>\<open>Infinity\<close>, which is truthy, so the second sample passes the guard and its
  change, \<^verbatim>\<open>(Infinity - Infinity) / Infinity * 100\<close>, is printed as \<^verbatim>\<open>NaN\<close>.
\<close>

theorem infinite_price_prints_NaN_counterexample:
  "fst (monitorPrices 30000 fair_world) =
     Inr (setTimeout Report_stopped (new_monitor\<lparr>subscribed := True\<rparr>)) \<and>
   effects (event_loop fair_world [Update_pushed huge_feed, Update_pushed huge_feed]
      (setTimeout Report_stopped (new_monitor\<lparr>subscribed := True\<rparr>))) =
   [Console (Price_line Flat TextInfinity False Literal_zero),
    Console (Price_line Flat TextInfinity False (Text TextNaN))]"
proof -
  have "change_since (Num 0) PosInfinity = Literal_zero"
    "change_since PosInfinity PosInfinity = Text TextNaN"
    by (simp_all add: change_since_def)
  then show ?thesis
    using fair_monitor
    by (simp add: show_price_effects show_price_fields fair_huge_readable subscribed_monitor
        arrow_of_def)
qed

text \<open>
  C10, amended. Once \<^verbatim>\<open>monitorPrices\<close> has returned, whatever occurs afterwards: the
  first price line shows the literal \<^verbatim>\<open>0\<close> as its change, with the neutral arrow and no
  sign; so does any sample that finds the previous price falsy, that is 0 or \<^verbatim>\<open>NaN\<close>; a
  change is computed only with a previous price that is neither, so the division is
  never by zero; while every sampled price is finite no price line shows \<^verbatim>\<open>NaN\<close>; and
  while every sampled price is zero or between \<open>2\<^sup>-\<^sup>5\<^sup>0\<^sup>0\<close> and \<open>2\<^sup>5\<^sup>0\<^sup>0\<close> in magnitude no
  price line shows \<^verbatim>\<open>NaN\<close> or an infinity.
\<close>

theorem percent_change_guard:
  assumes "fst (monitorPrices duration w) = Inr m0"
  shows "(\<forall>ev rest. filter is_price_line (effects (event_loop w occs m0)) = ev # rest \<longrightarrow>
       (\<exists>p. ev = Console (Price_line Flat p False Literal_zero))) \<and>
    (\<forall>m f. \<not> truthy (lastPrice m) \<longrightarrow>
       (\<exists>p. effects (show_price w f m) =
          effects m @ [Console (Price_line Flat p False Literal_zero)])) \<and>
    (\<forall>previous readable. change_since previous readable \<noteq> Literal_zero \<longrightarrow>
       previous \<noteq> Num 0 \<and> previous \<noteq> NaN) \<and>
    ((\<forall>f \<in> set (concat (map sampled occs)). is_finite (readablePrice w (getPriceUnchecked f)))
       \<longrightarrow> (\<forall>ev \<in> set (effects (event_loop w occs m0)). no_NaN ev)) \<and>
    ((\<forall>f \<in> set (concat (map sampled occs)). is_moderate (readablePrice w (getPriceUnchecked f)))
       \<longrightarrow> (\<forall>ev \<in> set (effects (event_loop w occs m0)). no_NaN_or_Infinity ev))"
proof -
  note fresh = monitorPrices_fresh [OF assms]
  have "(filter is_price_line (effects m0) = [] \<and> lastPrice m0 = Num 0) \<or>
     (\<exists>p rest. filter is_price_line (effects m0) =
        Console (Price_line Flat p False Literal_zero) # rest)"
    using fresh by simp
  from event_loop_first_line [OF this, of w occs]
  have first: "\<forall>ev rest. filter is_price_line (effects (event_loop w occs m0)) = ev # rest \<longrightarrow>
       (\<exists>p. ev = Console (Price_line Flat p False Literal_zero))"
    by auto
  have falsy: "\<forall>m f. \<not> truthy (lastPrice m) \<longrightarrow>
       (\<exists>p. effects (show_price w f m) =
          effects m @ [Console (Price_line Flat p False Literal_zero)])"
    using show_price_first by blast
  have guard: "\<forall>previous readable. change_since previous readable \<noteq> Literal_zero \<longrightarrow>
       previous \<noteq> Num 0 \<and> previous \<noteq> NaN"
    using change_since_guard by blast
  have other: "no_NaN ev" "no_NaN_or_Infinity ev" if "\<not> is_price_line ev" for ev
    using that by (cases ev rule: is_price_line.cases; simp)+
  have finite: "(\<forall>f \<in> set (concat (map sampled occs)).
      is_finite (readablePrice w (getPriceUnchecked f)))
       \<longrightarrow> (\<forall>ev \<in> set (effects (event_loop w occs m0)). no_NaN ev)"
  proof
    assume occs: "\<forall>f \<in> set (concat (map sampled occs)).
      is_finite (readablePrice w (getPriceUnchecked f))"
    show "\<forall>ev \<in> set (effects (event_loop w occs m0)). no_NaN ev"
    proof (rule event_loop_keeps [of is_finite no_NaN])
      fix l r
      assume "is_finite l" "is_finite r"
      then show "no_NaN (Console (Price_line (arrow_of (change_since l r)) (toFixed2 r)
          (positive (change_since l r)) (change_since l r)))"
        using change_since_not_NaN [of l r] by (cases r) simp_all
    next
      fix ev
      assume "\<not> is_price_line ev"
      then show "no_NaN ev"
        by (rule other)
    next
      show "is_finite (lastPrice m0)"
        using fresh by simp
      show "\<forall>ev \<in> set (effects m0). no_NaN ev"
        using fresh by simp
      show "\<forall>f \<in> set (concat (map sampled occs)).
          is_finite (readablePrice w (getPriceUnchecked f))"
        by (rule occs)
    qed
  qed
  have moderate: "(\<forall>f \<in> set (concat (map sampled occs)).
      is_moderate (readablePrice w (getPriceUnchecked f)))
       \<longrightarrow> (\<forall>ev \<in> set (effects (event_loop w occs m0)). no_NaN_or_Infinity ev)"
  proof
    assume occs: "\<forall>f \<in> set (concat (map sampled occs)).
      is_moderate (readablePrice w (getPriceUnchecked f))"
    show "\<forall>ev \<in> set (effects (event_loop w occs m0)). no_NaN_or_Infinity ev"
    proof (rule event_loop_keeps [of is_moderate no_NaN_or_Infinity])
      fix l r
      assume "is_moderate l" "is_moderate r"
      then show "no_NaN_or_Infinity (Console (Price_line (arrow_of (change_since l r)) (toFixed2 r)
          (positive (change_since l r)) (change_since l r)))"
        using change_since_moderate [of l r] by (cases r) simp_all
    next
      fix ev
      assume "\<not> is_price_line ev"
      then show "no_NaN_or_Infinity ev"
        by (rule other)
    next
      show "is_moderate (lastPrice m0)"
        using fresh by simp
      show "\<forall>ev \<in> set (effects m0). no_NaN_or_Infinity ev"
        using fresh by simp
      show "\<forall>f \<in> set (concat (map sampled occs)).
          is_moderate (readablePrice w (getPriceUnchecked f))"
        by (rule occs)
    qed
  qed
  from first falsy guard finite moderate show ?thesis
    by (intro conjI)
qed

lemma toFixed2_value:
  assumes "0 \<le> x" and "x < 10 ^ 21"
    and "of_nat n \<le> x * 100 + 1 / 2" and "x * 100 + 1 / 2 < of_nat n + 1"
  shows "toFixed2 (Num x) = Fixed False n"
proof -
  have "\<lfloor>x * 100 + 1 / 2\<rfloor> = int n"
    using assms(3,4) by (intro floor_unique) simp_all
  then show ?thesis
    using assms(1,2) by simp
qed

lemma sample_texts:
  "toFixed2 (readablePrice fair_world (getPriceUnchecked sample_feed)) = Fixed False 300012"
  "toFixed2 (readablePrice fair_world (getPriceUnchecked rising_feed)) = Fixed False 303012"
proof -
  have "toFixed2 (Num (6597341250986276 / 2 ^ 41)) = Fixed False 300012"
    by (rule toFixed2_value; simp)
  then show "toFixed2 (readablePrice fair_world (getPriceUnchecked sample_feed)) =
      Fixed False 300012"
    by (simp only: sample_feed_def price_feed.simps fair_sample_readable)
  have "toFixed2 (Num (6663314663500976 / 2 ^ 41)) = Fixed False 303012"
    by (rule toFixed2_value; simp)
  then show "toFixed2 (readablePrice fair_world (getPriceUnchecked rising_feed)) =
      Fixed False 303012"
    by (simp only: fair_rising_readable)
qed

lemma sample_moderate:
  "is_moderate (readablePrice fair_world (getPriceUnchecked sample_feed))"
  "is_moderate (readablePrice fair_world (getPriceUnchecked rising_feed))"
proof -
  have "is_moderate (Num (6597341250986276 / 2 ^ 41))"
    by (simp add: power_int_minus)
  then show "is_moderate (readablePrice fair_world (getPriceUnchecked sample_feed))"
    by (simp only: sample_feed_def price_feed.simps fair_sample_readable)
  have "is_moderate (Num (6663314663500976 / 2 ^ 41))"
    by (simp add: power_int_minus)
  then show "is_moderate (readablePrice fair_world (getPriceUnchecked rising_feed))"
    by (simp only: fair_rising_readable)
qed

lemma sample_change:
  "change_since (readablePrice fair_world (getPriceUnchecked sample_feed))
     (readablePrice fair_world (getPriceUnchecked rising_feed)) = Text (Fixed False 100)"
proof -
  have d: "round_double (6663314663500976 / 2 ^ 41 - 6597341250986276 / 2 ^ 41) =
      Num (sgn (6663314663500976 / 2 ^ 41 - 6597341250986276 / 2 ^ 41) *
        of_int 8444596801881600 * 2 powi (4 - 52))"
    by (rule round_double_value; (rule rne_unique)?; simp add: power_int_minus)
  have q: "round_double (8444596801881600 / 2 ^ 48 / (6597341250986276 / 2 ^ 41)) =
      Num (sgn (8444596801881600 / 2 ^ 48 / (6597341250986276 / 2 ^ 41)) *
        of_int 5764607523456902 * 2 powi (- 7 - 52))"
    by (rule round_double_value; (rule rne_unique)?; simp add: power_int_minus)
  have c: "round_double (5764607523456902 / 2 ^ 59 * 100) =
      Num (sgn (5764607523456902 / 2 ^ 59 * 100) * of_int 4503599627700705 * 2 powi (0 - 52))"
    by (rule round_double_value; (rule rne_unique)?; simp add: power_int_minus)
  have t: "toFixed2 (Num (4503599627700705 / 2 ^ 52)) = Fixed False 100"
    by (rule toFixed2_value; simp)
  have d': "js_minus (Num (6663314663500976 / 2 ^ 41)) (Num (6597341250986276 / 2 ^ 41)) =
      Num (8444596801881600 / 2 ^ 48)"
    using d by (simp add: power_int_minus)
  have q': "js_div (Num (8444596801881600 / 2 ^ 48)) (Num (6597341250986276 / 2 ^ 41)) =
      Num (5764607523456902 / 2 ^ 59)"
    using q by (simp add: power_int_minus)
  have c': "js_times (Num (5764607523456902 / 2 ^ 59)) (Num 100) =
      Num (4503599627700705 / 2 ^ 52)"
    using c by (simp add: power_int_minus)
  have "truthy (Num (6597341250986276 / 2 ^ 41))"
    by simp
  then have "change_since (Num (6597341250986276 / 2 ^ 41)) (Num (6663314663500976 / 2 ^ 41)) =
      Text (Fixed False 100)"
    unfolding change_since_def Number_100 d' q' c' t by (simp only: if_True)
  then show ?thesis
    by (simp only: sample_feed_def price_feed.simps fair_sample_readable fair_rising_readable)
qed

lemma two_samples:
  "effects (event_loop fair_world [Update_pushed sample_feed, Update_pushed rising_feed]
      (setTimeout Report_stopped (new_monitor\<lparr>subscribed := True\<rparr>))) =
   [Console (Price_line Flat (Fixed False 300012) False Literal_zero),
    Console (Price_line Up (Fixed False 303012) True (Text (Fixed False 100)))]"
  by (simp add: show_price_effects show_price_fields sample_texts sample_change
      subscribed_monitor change_since_falsy arrow_of_def)

theorem percent_change_guard_witness:
  "fst (monitorPrices 30000 fair_world) =
     Inr (setTimeout Report_stopped (new_monitor\<lparr>subscribed := True\<rparr>)) \<and>
   is_moderate (readablePrice fair_world (getPriceUnchecked sample_feed)) \<and>
   is_moderate (readablePrice fair_world (getPriceUnchecked rising_feed)) \<and>
   effects (event_loop fair_world [Update_pushed sample_feed, Update_pushed rising_feed]
      (setTimeout Report_stopped (new_monitor\<lparr>subscribed := True\<rparr>))) =
   [Console (Price_line Flat (Fixed False 300012) False Literal_zero),
    Console (Price_line Up (Fixed False 303012) True (Text (Fixed False 100)))] \<and>
   no_NaN_or_Infinity
     (Console (Price_line Up (Fixed False 303012) True (Text (Fixed False 100)))) \<and>
   \<not> truthy (lastPrice (setTimeout Report_stopped (new_monitor\<lparr>subscribed := True\<rparr>)))"
proof -
  note guard = percent_change_guard [OF fair_monitor,
      of "[Update_pushed sample_feed, Update_pushed rising_feed]"]
  have "\<forall>f \<in> set (concat (map sampled [Update_pushed sample_feed, Update_pushed rising_feed])).
      is_moderate (readablePrice fair_world (getPriceUnchecked f))"
    using sample_moderate by simp
  with guard have "\<forall>ev \<in> set (effects (event_loop fair_world
      [Update_pushed sample_feed, Update_pushed rising_feed]
      (setTimeout Report_stopped (new_monitor\<lparr>subscribed := True\<rparr>)))). no_NaN_or_Infinity ev"
    by blast
  then have "no_NaN_or_Infinity
     (Console (Price_line Up (Fixed False 303012) True (Text (Fixed False 100))))"
    unfolding two_samples by simp
  moreover have
    "\<not> truthy (lastPrice (setTimeout Report_stopped (new_monitor\<lparr>subscribed := True\<rparr>)))"
    by (simp add: subscribed_monitor)
  ultimately show ?thesis
    using fair_monitor two_samples sample_moderate by blast
qed


section \<open>The end of monitoring\<close>

lemma event_loop_append: "event_loop w (xs @ ys) m = event_loop w ys (event_loop w xs m)"
  by (induction xs arbitrary: m) simp_all

lemma occur_subscribed: "subscribed (occur w x m) = subscribed m"
proof (cases x)
  case (Timeout_due i)
  show ?thesis
  proof (cases "map_of (timeouts m) i")
    case None
    then show ?thesis by (simp add: Timeout_due)
  next
    case (Some cb)
    then show ?thesis
      by (cases cb) (simp_all add: Timeout_due print_def clearInterval_def)
  qed
qed (simp_all add: show_price_fields poll_settled_def print_def
    split: sum.splits option.splits list.splits)

lemma event_loop_subscribed: "subscribed (event_loop w occs m) = subscribed m"
  by (induction occs arbitrary: m) (simp_all add: occur_subscribed)

text \<open>
  Nothing cancels the subscription: whatever has occurred since \<^verbatim>\<open>monitorPrices\<close>
  returned, the timeout included, the next pushed update is printed.
\<close>

lemma pushed_update_is_printed:
  assumes "subscribed m"
  shows "\<exists>a p s c. effects (event_loop w (occs @ [Update_pushed f]) m) =
    effects (event_loop w occs m) @ [Console (Price_line a p s c)]"
  using assms
  by (simp add: event_loop_append event_loop_subscribed show_price_effects)

text \<open>
  C9 at its failing input: the price service can push updates, the monitor is started
  for 30 seconds, the timeout fires and prints that monitoring has stopped, and the
  update pushed after it is printed all the same.
\<close>

theorem subscription_prints_after_stop:
  "fst (monitorPrices 30000 fair_world) =
     Inr (setTimeout Report_stopped (new_monitor\<lparr>subscribed := True\<rparr>)) \<and>
   timeouts (setTimeout Report_stopped (new_monitor\<lparr>subscribed := True\<rparr>)) =
     [(1, Report_stopped)] \<and>
   effects (event_loop fair_world [Timeout_due 1, Update_pushed sample_feed]
      (setTimeout Report_stopped (new_monitor\<lparr>subscribed := True\<rparr>))) =
   [Console (Monitoring_stopped 0),
    Console (Price_line Flat (Fixed False 300012) False Literal_zero)]"
  using fair_monitor subscribed_monitor
  by (simp add: show_price_effects sample_texts change_since_falsy arrow_of_def print_def
      del: toFixed2.simps)


text \<open>
  The polling path does cancel: once the timeout that clears the interval has fired, no
  interval is left, and from then on at most the polls still awaiting their answer
  print a price.
\<close>

lemma map_of_filter_fst:
  "map_of (filter (\<lambda>t. fst t \<noteq> i) ts) k = (if k = i then None else map_of ts k)"
  by (induction ts) auto

lemma occur_keeps_clearing:
  assumes "intervals m = [] \<or>
     (intervals m = [1] \<and> map_of (timeouts m) 2 = Some (Clear_interval 1))"
  shows "intervals (occur w x m) = [] \<or>
     (intervals (occur w x m) = [1] \<and> map_of (timeouts (occur w x m)) 2 = Some (Clear_interval 1))"
proof (cases x)
  case (Timeout_due i)
  show ?thesis
  proof (cases "map_of (timeouts m) i")
    case None
    then show ?thesis using assms by (simp add: Timeout_due)
  next
    case (Some cb)
    show ?thesis
    proof (cases cb)
      case (Clear_interval j)
      then show ?thesis
        using assms Some
        by (cases "i = 2")
          (auto simp add: Timeout_due clearInterval_def map_of_filter_fst)
    next
      case Report_stopped
      then show ?thesis
        using assms Some
        by (cases "i = 2") (auto simp add: Timeout_due print_def map_of_filter_fst)
    qed
  qed
next
  case (Poll_settles answer)
  then show ?thesis
    using assms
    by (auto simp add: show_price_fields poll_settled_def print_def
        split: sum.splits option.splits list.splits)
qed (use assms in \<open>auto simp add: show_price_fields\<close>)

lemma occur_clears:
  assumes "intervals m = [] \<or>
     (intervals m = [1] \<and> map_of (timeouts m) 2 = Some (Clear_interval 1))"
  shows "intervals (occur w (Timeout_due 2) m) = []"
proof (cases "map_of (timeouts m) 2")
  case None
  then show ?thesis using assms by auto
next
  case (Some cb)
  then show ?thesis
    using assms by (cases cb) (auto simp add: clearInterval_def print_def)
qed

lemma occur_stays_cleared:
  assumes "intervals m = []"
  shows "intervals (occur w x m) = []"
proof (cases x)
  case (Timeout_due i)
  show ?thesis
  proof (cases "map_of (timeouts m) i")
    case None
    then show ?thesis using assms by (simp add: Timeout_due)
  next
    case (Some cb)
    then show ?thesis
      using assms by (cases cb) (simp_all add: Timeout_due print_def clearInterval_def)
  qed
qed (use assms in \<open>simp_all add: show_price_fields poll_settled_def print_def
    split: sum.splits option.splits list.splits\<close>)

lemma event_loop_stays_cleared:
  "intervals m = [] \<Longrightarrow> intervals (event_loop w occs m) = []"
  by (induction occs arbitrary: m) (simp_all add: occur_stays_cleared)

lemma event_loop_clears:
  assumes "intervals m = [] \<or>
     (intervals m = [1] \<and> map_of (timeouts m) 2 = Some (Clear_interval 1))"
    and "Timeout_due 2 \<in> set occs"
  shows "intervals (event_loop w occs m) = []"
  using assms
proof (induction occs arbitrary: m)
  case Nil
  then show ?case by simp
next
  case (Cons x occs)
  show ?case
  proof (cases "x = Timeout_due 2")
    case True
    then show ?thesis
      using occur_clears [OF Cons.prems(1)] by (simp add: event_loop_stays_cleared)
  next
    case False
    with Cons.prems(2) have "Timeout_due 2 \<in> set occs" by simp
    from Cons.IH [OF occur_keeps_clearing [OF Cons.prems(1)] this]
    show ?thesis by simp
  qed
qed

lemma occur_after_clearing:
  assumes "intervals m = []" and "\<not> subscribed m"
  shows "length (filter is_price_line (effects (occur w x m))) + pending (occur w x m) \<le>
    length (filter is_price_line (effects m)) + pending m"
proof (cases x)
  case (Timeout_due i)
  show ?thesis
  proof (cases "map_of (timeouts m) i")
    case None
    then show ?thesis by (simp add: Timeout_due)
  next
    case (Some cb)
    then show ?thesis
      by (cases cb) (simp_all add: Timeout_due print_def clearInterval_def)
  qed
next
  case (Poll_settles answer)
  then show ?thesis
    by (auto simp add: show_price_effects show_price_fields poll_settled_def print_def
        split: sum.splits option.splits list.splits)
qed (use assms in simp_all)

lemma event_loop_after_clearing:
  assumes "intervals m = []" and "\<not> subscribed m"
  shows "length (filter is_price_line (effects (event_loop w occs m))) \<le>
    length (filter is_price_line (effects m)) + pending m"
  using assms
proof (induction occs arbitrary: m)
  case Nil
  then show ?case by simp
next
  case (Cons x occs)
  have "length (filter is_price_line (effects (event_loop w occs (occur w x m)))) \<le>
      length (filter is_price_line (effects (occur w x m))) + pending (occur w x m)"
    using Cons.IH [of "occur w x m"] Cons.prems
    by (simp add: occur_stays_cleared occur_subscribed)
  also have "\<dots> \<le> length (filter is_price_line (effects m)) + pending m"
    using Cons.prems by (rule occur_after_clearing)
  finally show ?case by simp
qed

lemma polling_stops_after_duration:
  assumes "subscribePriceFeedUpdates w = None"
    and "fst (monitorPrices duration w) = Inr m0"
    and "Timeout_due 2 \<in> set before"
  shows "length (filter is_price_line (effects (event_loop w (before @ after) m0))) \<le>
    length (filter is_price_line (effects (event_loop w before m0))) +
    pending (event_loop w before m0)"
proof -
  have m0: "m0 = setTimeout Report_stopped
      (setTimeout (Clear_interval 1) (snd (setInterval new_monitor)))"
    using assms(1,2)
    by (simp add: monitorPrices_def io_fs setInterval_def new_monitor_def)
  then have start: "intervals m0 = [1]" "map_of (timeouts m0) 2 = Some (Clear_interval 1)"
    "\<not> subscribed m0"
    by (simp_all add: setTimeout_def setInterval_def new_monitor_def)
  have "intervals (event_loop w before m0) = []"
    using start assms(3) by (intro event_loop_clears) simp_all
  moreover have "\<not> subscribed (event_loop w before m0)"
    using start by (simp add: event_loop_subscribed)
  ultimately show ?thesis
    unfolding event_loop_append by (rule event_loop_after_clearing)
qed

text \<open>
  A poll whose request fails is only logged: the interval, the timeouts and the two
  variables are as before, so the polling goes on.
\<close>

lemma failed_poll_is_only_logged:
  assumes "0 < pending m"
  shows "occur w (Poll_settles (Inl e)) m =
    m\<lparr>pending := pending m - 1,
      effects := effects m @ [Console (Error_fetching_price (message e))]\<rparr>"
  using assms by (simp add: poll_settled_def print_def)

end
